theory Spec2Isabelle
  imports Complex_Main
begin

section \<open>Numbers\<close>

text \<open>
  The source computes on JavaScript numbers, the binary64 format of IEEE 754. The model
  has three kinds of number.

  \<^item> A whole fixed date and the components of a calendar date are an \<^typ>\<open>int\<close>: on
  whole numbers of the size of a date, far below \<open>2^53\<close>, the sums, differences and
  products of the source are exact and \<open>Math.floor(a / b)\<close> is the floor division
  \<open>a div b\<close>.

  \<^item> The weekday helpers and \<open>toArray\<close>, which take a fixed date with a time of day,
  compute on doubles: a number of the format is the \<^typ>\<open>real\<close> it stands for, and
  every sum, difference, product and quotient of the source is rounded to the nearest
  number of the format, a tie to the even one (\<open>double\<close> below). \<open>Math.floor\<close> and
  \<open>Math.round\<close> are exact. Overflow, the infinities and NaN are outside the model.

  \<^item> The astronomical functions compute on exact reals, with the values of the external
  ephemeris library as a parameter.
\<close>

subsection \<open>Doubles\<close>

text \<open>
  \<open>double x\<close> is the number of the binary64 format nearest to \<open>x\<close>: the multiple of
  \<open>2^e\<close> nearest to \<open>x\<close>, a tie going to the even multiple, where \<open>2^e\<close> is the spacing
  of the format at \<open>x\<close>, 52 binary places below the leading bit of \<open>x\<close> and at least
  \<open>2^-1074\<close>.
\<close>

definition pow2 :: "int \<Rightarrow> real" where
  "pow2 e = (if 0 \<le> e then 2 ^ nat e else 1 / 2 ^ nat (- e))"

definition round_even :: "real \<Rightarrow> int" where
  "round_even x =
     (let f = \<lfloor>x\<rfloor>; r = x - of_int f
      in if r < 1 / 2 then f else if 1 / 2 < r then f + 1 else if even f then f else f + 1)"

definition double :: "real \<Rightarrow> real" where
  "double x =
     (if x = 0 then 0
      else let e = max (\<lfloor>log 2 \<bar>x\<bar>\<rfloor> - 52) (- 1074)
           in of_int (round_even (x / pow2 e)) * pow2 e)"

subsection \<open>Numeric utilities\<close>

text \<open>
  \<open>_mod(a, b) = a - b * Math.floor(a / b)\<close>: on whole numbers (\<open>mod_js\<close>), on doubles
  (\<open>mod_double\<close>, the quotient, the product and the difference each rounded) and on exact
  reals (\<open>rmod\<close>, for the astronomical functions). Every call in the source has a
  constant \<open>b\<close> other than 0.
\<close>

definition mod_js :: "int \<Rightarrow> int \<Rightarrow> int" where
  "mod_js a b = a - b * (a div b)"

definition amod_js :: "int \<Rightarrow> int \<Rightarrow> int" where
  "amod_js a b = b + mod_js a (- b)"

definition mod_double :: "real \<Rightarrow> real \<Rightarrow> real" where
  "mod_double a b = double (a - double (b * of_int \<lfloor>double (a / b)\<rfloor>))"

definition rmod :: "real \<Rightarrow> real \<Rightarrow> real" where
  "rmod a b = a - b * of_int \<lfloor>a / b\<rfloor>"

subsection \<open>Weekdays\<close>

datatype Weekday = Sunday | Monday | Tuesday | Wednesday | Thursday | Friday | Saturday

fun weekday_num :: "Weekday \<Rightarrow> int" where
  "weekday_num Sunday = 0"
| "weekday_num Monday = 1"
| "weekday_num Tuesday = 2"
| "weekday_num Wednesday = 3"
| "weekday_num Thursday = 4"
| "weekday_num Friday = 5"
| "weekday_num Saturday = 6"

text \<open>The weekday helpers on doubles: the date may have a time of day.\<close>

definition weekdayOnOrBefore :: "real \<Rightarrow> Weekday \<Rightarrow> real" where
  "weekdayOnOrBefore date k =
     double (date - mod_double (double (date - of_int (weekday_num k))) 7)"

definition weekdayAfter :: "real \<Rightarrow> Weekday \<Rightarrow> real" where
  "weekdayAfter date k = weekdayOnOrBefore (double (date + 7)) k"


text \<open>The same helpers on whole fixed dates, as the ISO calendar calls them.\<close>

definition weekdayOnOrBefore_int :: "int \<Rightarrow> Weekday \<Rightarrow> int" where
  "weekdayOnOrBefore_int date k = date - mod_js (date - weekday_num k) 7"

definition weekdayAfter_int :: "int \<Rightarrow> Weekday \<Rightarrow> int" where
  "weekdayAfter_int date k = weekdayOnOrBefore_int (date + 7) k"

definition nthWeekday :: "int \<Rightarrow> Weekday \<Rightarrow> int \<Rightarrow> int" where
  "nthWeekday n k date =
     (if n > 0 then 7 * n + weekdayOnOrBefore_int (date - 1) k
      else 7 * n + weekdayAfter_int date k)"

subsection \<open>Fractional days\<close>

text \<open>\<open>Math.round(x)\<close> is the nearest whole number, a tie going up.\<close>

definition js_round :: "real \<Rightarrow> int" where
  "js_round x = \<lfloor>x + 1 / 2\<rfloor>"

type_synonym DateArray = "int \<times> int \<times> int \<times> int \<times> int \<times> real"

text \<open>
  \<open>toArray\<close> on doubles. The source's \<open>excess * 24 * 60 * 60\<close> multiplies from the
  left, and \<open>elapsedSeconds - min * 60 - hour * 60 * 60\<close> subtracts from the left; every
  operation is rounded.
\<close>

definition toArray :: "int \<Rightarrow> int \<Rightarrow> real \<Rightarrow> DateArray" where
  "toArray year month day =
     (let rday = \<lfloor>day\<rfloor> in
      if of_int rday = day then (year, month, rday, 0, 0, 0)
      else
        let excess = double (day - of_int rday);
            elapsedHours = double (excess * 24);
            elapsedMinutes = double (double (excess * 24) * 60);
            elapsedSeconds = double (double (double (excess * 24) * 60) * 60);
            hour = \<lfloor>elapsedHours\<rfloor>;
            min = \<lfloor>double (elapsedMinutes - double (of_int hour * 60))\<rfloor>;
            sec = double (double (elapsedSeconds - double (of_int min * 60))
                    - double (double (of_int hour * 60) * 60));
            sec = double (of_int (js_round (double (sec * 1000))) / 1000)
        in
          if \<lfloor>sec\<rfloor> = 60 then
            (if min + 1 = 60 then
               (if hour + 1 = 24 then (year, month, rday + 1, 0, 0, 0)
                else (year, month, rday, hour + 1, 0, 0))
             else (year, month, rday, hour, min + 1, 0))
          else (year, month, rday, hour, min, sec))"

text \<open>What \<open>toArray\<close> returns on a whole day, as the calendars below use it.\<close>

definition toArray_int :: "int \<Rightarrow> int \<Rightarrow> int \<Rightarrow> DateArray" where
  "toArray_int year month day = (year, month, day, 0, 0, 0)"

subsection \<open>Julian day number\<close>

definition JD_EPOCH :: real where
  "JD_EPOCH = - 1721424.5"

definition JD_fromFixed :: "real \<Rightarrow> real" where
  "JD_fromFixed date = date - JD_EPOCH"

definition JD_toFixed :: "real \<Rightarrow> real" where
  "JD_toFixed jd = jd + JD_EPOCH"

section \<open>Arithmetic calendars\<close>

text \<open>
  \<open>toFixed_of f a\<close> is \<open>toFixed\<close> applied to a date array: the first three
  components of the array are the arguments of \<open>toFixed\<close>.
\<close>

fun toFixed_of :: "(int \<Rightarrow> int \<Rightarrow> int \<Rightarrow> int) \<Rightarrow> DateArray \<Rightarrow> int" where
  "toFixed_of f (year, month, day, hour, minute, second) = f year month day"

subsection \<open>Egyptian and Armenian\<close>

definition Egyptian_EPOCH :: int where
  "Egyptian_EPOCH = - 272787"

definition Egyptian_toFixed :: "int \<Rightarrow> int \<Rightarrow> int \<Rightarrow> int" where
  "Egyptian_toFixed year month day =
     Egyptian_EPOCH + 365 * (year - 1) + 30 * (month - 1) + day - 1"

definition Egyptian_fromFixed :: "int \<Rightarrow> DateArray" where
  "Egyptian_fromFixed date =
     (let days = date - Egyptian_EPOCH;
          year = days div 365 + 1;
          month = mod_js days 365 div 30 + 1;
          day = days - 365 * (year - 1) - 30 * (month - 1) + 1
      in toArray_int year month day)"

definition Armenian_EPOCH :: int where
  "Armenian_EPOCH = 201443"

definition Armenian_toFixed :: "int \<Rightarrow> int \<Rightarrow> int \<Rightarrow> int" where
  "Armenian_toFixed year month day =
     Armenian_EPOCH + Egyptian_toFixed year month day - Egyptian_EPOCH"

definition Armenian_fromFixed :: "int \<Rightarrow> DateArray" where
  "Armenian_fromFixed date = Egyptian_fromFixed (date + Egyptian_EPOCH - Armenian_EPOCH)"

subsection \<open>Gregorian\<close>

definition Gregorian_isLeapYear :: "int \<Rightarrow> bool" where
  "Gregorian_isLeapYear year \<longleftrightarrow>
     mod_js year 400 = 0 \<or> (mod_js year 4 = 0 \<and> mod_js year 100 \<noteq> 0)"

definition Gregorian_toFixed :: "int \<Rightarrow> int \<Rightarrow> int \<Rightarrow> int" where
  "Gregorian_toFixed year month day =
     (let correction = (if month > 2 then (if Gregorian_isLeapYear year then - 1 else - 2) else 0)
      in 365 * (year - 1) + (year - 1) div 4 - (year - 1) div 100 + (year - 1) div 400
           + (367 * month - 362) div 12 + correction + day)"

definition Gregorian_yearFromFixed :: "int \<Rightarrow> int" where
  "Gregorian_yearFromFixed date =
     (let d0 = date - 1;
          n400 = d0 div 146097;
          d1 = mod_js d0 146097;
          n100 = d1 div 36524;
          d2 = mod_js d1 36524;
          n4 = d2 div 1461;
          d3 = mod_js d2 1461;
          n1 = d3 div 365;
          year = 400 * n400 + 100 * n100 + 4 * n4 + n1
      in if n100 = 4 \<or> n1 = 4 then year else year + 1)"

definition Gregorian_fromFixed :: "int \<Rightarrow> DateArray" where
  "Gregorian_fromFixed date =
     (let year = Gregorian_yearFromFixed date;
          priorDays = date - Gregorian_toFixed year 1 1;
          corr = (if date < Gregorian_toFixed year 3 1 then 0
                  else if Gregorian_isLeapYear year then 1 else 2);
          month = (12 * (priorDays + corr) + 373) div 367;
          day = date - Gregorian_toFixed year month 1 + 1
      in toArray_int year month day)"

subsection \<open>Julian\<close>

definition Julian_isLeapYear :: "int \<Rightarrow> bool" where
  "Julian_isLeapYear year = (let f = (if year > 0 then 0 else 3) in mod_js year 4 = f)"

definition Julian_EPOCH :: int where
  "Julian_EPOCH = - 1"

definition Julian_toFixed :: "int \<Rightarrow> int \<Rightarrow> int \<Rightarrow> int" where
  "Julian_toFixed year month day =
     (let y = (if year < 0 then year else year - 1);
          c = (if month \<le> 2 then 0 else if Julian_isLeapYear year then - 1 else - 2)
      in Julian_EPOCH - 1 + 365 * y + y div 4 + (367 * month - 362) div 12 + c + day)"

definition Julian_fromFixed :: "int \<Rightarrow> DateArray" where
  "Julian_fromFixed date =
     (let approx = (4 * (date - Julian_EPOCH) + 1464) div 1461;
          year = (if approx > 0 then approx else approx - 1);
          priorDays = date - Julian_toFixed year 1 1;
          corr = (if date < Julian_toFixed year 3 1 then 0
                  else if Julian_isLeapYear year then 1 else 2);
          month = (12 * (priorDays + corr) + 373) div 367;
          day = date - Julian_toFixed year month 1 + 1
      in toArray_int year month day)"

subsection \<open>Roman\<close>

datatype RomanEvent = Kalends | Nones | Ides

type_synonym RomanDate = "int \<times> int \<times> RomanEvent \<times> int \<times> bool"

definition ides :: "int \<Rightarrow> int" where
  "ides month = (if month \<in> set [3, 5, 7, 10] then 15 else 13)"

definition nones :: "int \<Rightarrow> int" where
  "nones month = ides month - 8"

definition Roman_toFixed :: "int \<Rightarrow> int \<Rightarrow> RomanEvent \<Rightarrow> int \<Rightarrow> bool \<Rightarrow> int" where
  "Roman_toFixed year month event count leap =
     (let d = (if event = Nones then nones month
               else if event = Ides then ides month else 1);
          f = (if Julian_isLeapYear year \<and> month = 3 \<and> event = Kalends
                  \<and> count \<ge> 6 \<and> count \<le> 16 then 0 else 1);
          L = (if leap then 1 else 0)
      in Julian_toFixed year month d - count + f + L)"

definition Roman_fromFixed :: "int \<Rightarrow> RomanDate" where
  "Roman_fromFixed date =
     (case Julian_fromFixed date of (year, month, day, _) \<Rightarrow>
        if day = 1 then (year, month, Kalends, 1, False)
        else if day \<le> nones month then (year, month, Nones, nones month - day + 1, False)
        else if day \<le> ides month then (year, month, Ides, ides month - day + 1, False)
        else if month \<noteq> 2 \<or> \<not> Julian_isLeapYear year then
          (let month2 = amod_js (month + 1) 12;
               year2 = (if month2 \<noteq> 1 then year
                        else if month2 = 1 \<and> year \<noteq> - 1 then year + 1 else 1);
               kalends1 = Roman_toFixed year2 month2 Kalends 1 False
           in (year2, month2, Kalends, kalends1 - date + 1, False))
        else if day < 25 then (year, 3, Kalends, 30 - day, False)
        else (year, 3, Kalends, 31 - day, day = 25))"

fun Roman_toFixed_of :: "RomanDate \<Rightarrow> int" where
  "Roman_toFixed_of (year, month, event, count, leap) = Roman_toFixed year month event count leap"

subsection \<open>Coptic and Ethiopic\<close>

definition Coptic_EPOCH :: int where
  "Coptic_EPOCH = 103605"

definition Coptic_toFixed :: "int \<Rightarrow> int \<Rightarrow> int \<Rightarrow> int" where
  "Coptic_toFixed year month day =
     Coptic_EPOCH - 1 + 365 * (year - 1) + year div 4 + 30 * (month - 1) + day"

definition Coptic_fromFixed :: "int \<Rightarrow> DateArray" where
  "Coptic_fromFixed date =
     (let year = (4 * (date - Coptic_EPOCH) + 1463) div 1461;
          month = (date - Coptic_toFixed year 1 1) div 30 + 1;
          day = date + 1 - Coptic_toFixed year month 1
      in toArray_int year month day)"

definition Ethiopic_EPOCH :: int where
  "Ethiopic_EPOCH = 2796"

definition Ethiopic_toFixed :: "int \<Rightarrow> int \<Rightarrow> int \<Rightarrow> int" where
  "Ethiopic_toFixed year month day =
     Ethiopic_EPOCH + Coptic_toFixed year month day - Coptic_EPOCH"

definition Ethiopic_fromFixed :: "int \<Rightarrow> DateArray" where
  "Ethiopic_fromFixed date = Coptic_fromFixed (date + Coptic_EPOCH - Ethiopic_EPOCH)"

subsection \<open>ISO week calendar\<close>

definition ISO_toFixed :: "int \<Rightarrow> int \<Rightarrow> int \<Rightarrow> int" where
  "ISO_toFixed year week day =
     nthWeekday week Sunday (Gregorian_toFixed (year - 1) 12 28) + day"

definition ISO_fromFixed :: "int \<Rightarrow> DateArray" where
  "ISO_fromFixed date =
     (let approx = Gregorian_yearFromFixed (date - 3);
          year = (if date \<ge> ISO_toFixed (approx + 1) 1 1 then approx + 1 else approx);
          week = (date - ISO_toFixed year 1 1) div 7 + 1;
          day = amod_js date 7
      in toArray_int year week day)"

subsection \<open>Islamic (tabular)\<close>

definition Islamic_EPOCH :: int where
  "Islamic_EPOCH = 227015"

definition Islamic_toFixed :: "int \<Rightarrow> int \<Rightarrow> int \<Rightarrow> int" where
  "Islamic_toFixed year month day =
     day + 29 * (month - 1) + (6 * month - 1) div 11
       + 354 * (year - 1) + (3 + 11 * year) div 30 + Islamic_EPOCH - 1"

definition Islamic_fromFixed :: "int \<Rightarrow> DateArray" where
  "Islamic_fromFixed date =
     (let year = (30 * (date - Islamic_EPOCH) + 10646) div 10631;
          priorDays = date - Islamic_toFixed year 1 1;
          month = (11 * priorDays + 330) div 325;
          day = date - Islamic_toFixed year month 1 + 1
      in toArray_int year month day)"

subsection \<open>Modified French Revolutionary (arithmetic)\<close>

definition French_EPOCH :: int where
  "French_EPOCH = 654415"

definition Modified_toFixed :: "int \<Rightarrow> int \<Rightarrow> int \<Rightarrow> int" where
  "Modified_toFixed year month day =
     French_EPOCH - 1 + 365 * (year - 1)
       + (year - 1) div 4 - (year - 1) div 100 + (year - 1) div 400 - (year - 1) div 4000
       + 30 * (month - 1) + day"

definition Modified_fromFixed :: "int \<Rightarrow> DateArray" where
  "Modified_fromFixed date =
     (let year0 = (4000 * (date - French_EPOCH + 2)) div 1460969 + 1;
          year = (if date < Modified_toFixed year0 1 1 then year0 - 1 else year0);
          month = (date - Modified_toFixed year 1 1) div 30 + 1;
          day = date - Modified_toFixed year month 1 + 1
      in toArray_int year month day)"

subsection \<open>Mayan\<close>

definition LongCount_EPOCH :: int where
  "LongCount_EPOCH = - 1137142"

definition LongCount_toFixed :: "int \<Rightarrow> int \<Rightarrow> int \<Rightarrow> int \<Rightarrow> int \<Rightarrow> int" where
  "LongCount_toFixed baktun katun tun uinal kin =
     LongCount_EPOCH + baktun * 144000 + katun * 7200 + tun * 360 + uinal * 20 + kin"

definition LongCount_fromFixed :: "int \<Rightarrow> int \<times> int \<times> int \<times> int \<times> int" where
  "LongCount_fromFixed date =
     (let longCount = date - LongCount_EPOCH;
          baktun = longCount div 144000;
          dayOfBaktun = mod_js longCount 144000;
          katun = dayOfBaktun div 7200;
          dayOfKatun = mod_js dayOfBaktun 7200;
          tun = dayOfKatun div 360;
          dayOfTun = mod_js dayOfKatun 360;
          uinal = dayOfTun div 20;
          kin = mod_js dayOfTun 20
      in (baktun, katun, tun, uinal, kin))"

fun LongCount_toFixed_of :: "int \<times> int \<times> int \<times> int \<times> int \<Rightarrow> int" where
  "LongCount_toFixed_of (baktun, katun, tun, uinal, kin) =
     LongCount_toFixed baktun katun tun uinal kin"

definition Haab_ordinal :: "int \<Rightarrow> int \<Rightarrow> int" where
  "Haab_ordinal month day = (month - 1) * 20 + day"

definition Haab_EPOCH :: int where
  "Haab_EPOCH = LongCount_EPOCH - Haab_ordinal 18 8"

definition Haab_fromFixed :: "int \<Rightarrow> int \<times> int" where
  "Haab_fromFixed date =
     (let count = mod_js (date - Haab_EPOCH) 365;
          day = mod_js count 20;
          month = count div 20 + 1
      in (month, day))"

definition Haab_onOrBefore :: "int \<Rightarrow> int \<Rightarrow> int \<Rightarrow> int" where
  "Haab_onOrBefore haabMonth haabDay date =
     date - mod_js (date - Haab_EPOCH - Haab_ordinal haabMonth haabDay) 365"

definition Tzolkin_ordinal :: "int \<Rightarrow> int \<Rightarrow> int" where
  "Tzolkin_ordinal number name = mod_js (number - 1 + 39 * (number - name)) 260"

definition Tzolkin_EPOCH :: int where
  "Tzolkin_EPOCH = LongCount_EPOCH - Tzolkin_ordinal 4 20"

definition Tzolkin_fromFixed :: "int \<Rightarrow> int \<times> int" where
  "Tzolkin_fromFixed date =
     (let count = date - Tzolkin_EPOCH + 1;
          number = amod_js count 13;
          name = amod_js count 20
      in (number, name))"

definition Tzolkin_onOrBefore :: "int \<Rightarrow> int \<Rightarrow> int \<Rightarrow> int" where
  "Tzolkin_onOrBefore tzolkinNumber tzolkinName date =
     date - mod_js (date - Tzolkin_EPOCH - Tzolkin_ordinal tzolkinNumber tzolkinName) 260"

text \<open>The source returns \<open>null\<close> where the model returns \<open>None\<close>.\<close>

definition roundOnOrBefore :: "int \<Rightarrow> int \<Rightarrow> int \<Rightarrow> int \<Rightarrow> int \<Rightarrow> int option" where
  "roundOnOrBefore haabMonth haabDay tzolkinNumber tzolkinName date =
     (let haabCount = Haab_ordinal haabMonth haabDay + LongCount_EPOCH;
          tzolkinCount = Tzolkin_ordinal tzolkinNumber tzolkinName + LongCount_EPOCH;
          diff = tzolkinCount - haabCount
      in if mod_js diff 5 = 0 then Some (date - mod_js (date - haabCount - 365 * diff) 18980)
         else None)"

subsection \<open>Hebrew\<close>

definition Hebrew_EPOCH :: int where
  "Hebrew_EPOCH = - 1373427"

definition TISHRI :: int where
  "TISHRI = 7"

definition Hebrew_isLeapYear :: "int \<Rightarrow> bool" where
  "Hebrew_isLeapYear year \<longleftrightarrow> mod_js (7 * year + 1) 19 < 7"

definition molad :: "int \<Rightarrow> int \<Rightarrow> real" where
  "molad year month =
     (let y = (if month < TISHRI then year + 1 else year);
          monthsElapsed = month - TISHRI + (235 * y - 234) div 19
      in of_int Hebrew_EPOCH - 876 / 25920 + of_int monthsElapsed * (29.5 + 793 / 25920))"

definition elapsedDays :: "int \<Rightarrow> int" where
  "elapsedDays year =
     (let d = \<lfloor>molad year TISHRI - of_int Hebrew_EPOCH + 0.5\<rfloor>
      in if mod_js (3 * (d + 1)) 7 < 3 then d + 1 else d)"

definition newYearDelay :: "int \<Rightarrow> int" where
  "newYearDelay year =
     (let ny0 = elapsedDays (year - 1);
          ny1 = elapsedDays year;
          ny2 = elapsedDays (year + 1)
      in if ny2 - ny1 = 356 then 2
         else if ny1 - ny0 = 382 then 1
         else 0)"

definition newYear :: "int \<Rightarrow> int" where
  "newYear year = Hebrew_EPOCH + elapsedDays year + newYearDelay year"

definition daysInYear :: "int \<Rightarrow> int" where
  "daysInYear year = newYear (year + 1) - newYear year"

definition isLongMarheshvan :: "int \<Rightarrow> bool" where
  "isLongMarheshvan year = (let d = daysInYear year in d = 355 \<or> d = 385)"

definition isShortKislev :: "int \<Rightarrow> bool" where
  "isShortKislev year = (let d = daysInYear year in d = 353 \<or> d = 383)"

definition lastDayOfMonth :: "int \<Rightarrow> int \<Rightarrow> int" where
  "lastDayOfMonth year month =
     (if month \<in> set [2, 4, 6, 10, 13]
         \<or> (month = 12 \<and> \<not> Hebrew_isLeapYear year)
         \<or> (month = 8 \<and> \<not> isLongMarheshvan year)
         \<or> (month = 9 \<and> isShortKislev year)
      then 29 else 30)"

text \<open>
  The three \<open>for\<close> loops of \<open>Hebrew.toFixed\<close> add \<open>lastDayOfMonth\<close> over a range of
  months; \<open>[i..j]\<close> is the list of the whole numbers from \<open>i\<close> to \<open>j\<close>, empty when
  \<open>j < i\<close>.
\<close>

definition Hebrew_toFixed :: "int \<Rightarrow> int \<Rightarrow> int \<Rightarrow> int" where
  "Hebrew_toFixed year month day =
     (let lastMonth = (if Hebrew_isLeapYear year then 13 else 12);
          sum = (if month < TISHRI
                 then (\<Sum>m\<leftarrow>[1..month - 1]. lastDayOfMonth year m)
                    + (\<Sum>n\<leftarrow>[TISHRI..lastMonth]. lastDayOfMonth year n)
                 else (\<Sum>q\<leftarrow>[TISHRI..month - 1]. lastDayOfMonth year q))
      in newYear year + day - 1 + sum)"

text \<open>
  The scan over the months, \<open>for (let k = 0; k < 13; k++)\<close>: it leaves \<open>month\<close> at the
  first month whose last day is not before the date, or at the last month tried.
\<close>

function Hebrew_month_loop :: "int \<Rightarrow> int \<Rightarrow> int \<Rightarrow> int \<Rightarrow> int" where
  "Hebrew_month_loop year date startMonth k =
     (let month = startMonth + k in
      if date \<le> Hebrew_toFixed year month (lastDayOfMonth year month) then month
      else if k + 1 < 13 then Hebrew_month_loop year date startMonth (k + 1)
      else month)"
  by pat_completeness auto
termination
  by (relation "measure (\<lambda>(year, date, startMonth, k). nat (13 - k))") auto

text \<open>
  The search for the year, \<open>for (;;)\<close>, runs until a new year falls after the date. It
  ends, since the new year of year \<open>y \<ge> 1\<close> is at least \<open>y - 1\<close> days after the epoch:
  the lemmas below bound \<open>newYear\<close> and give the measure of the loop.
\<close>

lemma mod_js_eq: "mod_js a b = a mod b"
  by (simp add: mod_js_def minus_mult_div_eq_mod)

lemma molad_tishri_floor:
  "\<lfloor>molad year TISHRI - of_int Hebrew_EPOCH + 0.5\<rfloor>
     = (765433 * ((235 * year - 234) div 19) + 12084) div 25920"
proof -
  define m where "m = (235 * year - 234) div 19"
  have "molad year TISHRI - of_int Hebrew_EPOCH + 0.5
          = real_of_int (765433 * m + 12084) / real_of_int 25920"
    by (simp add: molad_def TISHRI_def m_def field_simps)
  then show ?thesis
    unfolding m_def[symmetric] by (simp only: floor_divide_of_int_eq)
qed

lemma elapsedDays_lower:
  "(765433 * ((235 * year - 234) div 19) + 12084) div 25920 \<le> elapsedDays year"
  unfolding elapsedDays_def molad_tishri_floor by (simp add: Let_def)

lemma newYearDelay_nonneg: "0 \<le> newYearDelay year"
  by (simp add: newYearDelay_def Let_def)

lemma newYear_lower:
  assumes "1 \<le> year"
  shows "Hebrew_EPOCH + year - 1 \<le> newYear year"
proof -
  define m where "m = (235 * year - 234) div 19"
  have "year - 1 \<le> m"
    unfolding m_def using assms by linarith
  moreover have "m \<le> (765433 * m + 12084) div 25920" if "0 \<le> m"
    using that by linarith
  ultimately have "year - 1 \<le> (765433 * ((235 * year - 234) div 19) + 12084) div 25920"
    unfolding m_def using assms by linarith
  then have "year - 1 \<le> elapsedDays year"
    using elapsedDays_lower [of year] by linarith
  then show ?thesis
    using newYearDelay_nonneg [of year] by (simp add: newYear_def)
qed

function Hebrew_year_loop :: "int \<Rightarrow> int \<Rightarrow> int" where
  "Hebrew_year_loop date year =
     (if newYear year > date then year - 1 else Hebrew_year_loop date (year + 1))"
  by pat_completeness auto
termination
proof (relation "measure (\<lambda>(date, year). nat (max 1 (date - Hebrew_EPOCH + 2) - year))")
  show "wf (measure (\<lambda>(date, year). nat (max 1 (date - Hebrew_EPOCH + 2) - year)))"
    by simp
next
  fix date year :: int
  assume "\<not> date < newYear year"
  then have le: "newYear year \<le> date" by simp
  have "year < max 1 (date - Hebrew_EPOCH + 2)"
  proof (cases "1 \<le> year")
    case True
    from newYear_lower [OF True] le show ?thesis by simp
  next
    case False
    then show ?thesis by simp
  qed
  then show "((date, year + 1), (date, year))
      \<in> measure (\<lambda>(date, year). nat (max 1 (date - Hebrew_EPOCH + 2) - year))"
    by simp
qed

definition Hebrew_fromFixed :: "int \<Rightarrow> DateArray" where
  "Hebrew_fromFixed date =
     (let approx = ((date - Hebrew_EPOCH) * 98496) div 35975351 + 1;
          year = Hebrew_year_loop date (approx - 1);
          startMonth = (if date < Hebrew_toFixed year 1 1 then TISHRI else 1);
          month = Hebrew_month_loop year date startMonth 0;
          day = date - Hebrew_toFixed year month 1 + 1
      in toArray_int year month day)"

section \<open>Time, location and astronomical search\<close>

text \<open>
  The positions of the sun and the moon, the equation of time and the times of the
  equinoxes come from the library \<open>astronomia\<close>, which is not part of this repository.
  The model takes what the source reads from it as a parameter: one field for every
  library value the source reads. \<open>horizontal_alt\<close> stands for the library's change of
  coordinates \<open>new coord.Ecliptic(lon, lat).toEquatorial(\<epsilon>).toHorizontal(new
  globe.Coord(lat, lon), st).alt\<close>, with its arguments in that order.
\<close>

record Ephemeris =
  apparentEquatorial_dec :: "real \<Rightarrow> real"
  eqtime_e :: "real \<Rightarrow> real"
  moonposition_lon :: "real \<Rightarrow> real"
  moonposition_lat :: "real \<Rightarrow> real"
  J2000Century :: "real \<Rightarrow> real"
  trueLongitude_lon :: "real \<Rightarrow> real"
  true2000_lon :: "real \<Rightarrow> real"
  meanObliquityLaskar :: "real \<Rightarrow> real"
  sidereal_apparent :: "real \<Rightarrow> real"
  horizontal_alt :: "real \<Rightarrow> real \<Rightarrow> real \<Rightarrow> real \<Rightarrow> real \<Rightarrow> real \<Rightarrow> real"
  solstice_march :: "int \<Rightarrow> real"
  solstice_september :: "int \<Rightarrow> real"
  meanLunarMonth :: real

record Locality =
  latitude :: real
  longitude :: real
  elevation :: "real option"
  zone :: real

definition D2R :: real where
  "D2R = pi / 180"

subsection \<open>Time frames\<close>

definition universalFromLocal :: "real \<Rightarrow> Locality \<Rightarrow> real" where
  "universalFromLocal t locale = t - longitude locale / 360"

definition localFromUniversal :: "real \<Rightarrow> Locality \<Rightarrow> real" where
  "localFromUniversal t locale = t + longitude locale / 360"

definition standardFromUniversal :: "real \<Rightarrow> Locality \<Rightarrow> real" where
  "standardFromUniversal t locale = t + zone locale / 24"

definition universalFromStandard :: "real \<Rightarrow> Locality \<Rightarrow> real" where
  "universalFromStandard t locale = t - zone locale / 24"

definition standardFromLocal :: "real \<Rightarrow> Locality \<Rightarrow> real" where
  "standardFromLocal t locale = standardFromUniversal (universalFromLocal t locale) locale"

definition localFromStandard :: "real \<Rightarrow> Locality \<Rightarrow> real" where
  "localFromStandard t locale = localFromUniversal (universalFromStandard t locale) locale"

definition apparentFromLocal :: "Ephemeris \<Rightarrow> real \<Rightarrow> real" where
  "apparentFromLocal eph t = t + eqtime_e eph (JD_fromFixed t) / (2 * pi)"

definition localFromApparent :: "Ephemeris \<Rightarrow> real \<Rightarrow> real" where
  "localFromApparent eph t = t - eqtime_e eph (JD_fromFixed t) / (2 * pi)"

definition midnight :: "Ephemeris \<Rightarrow> real \<Rightarrow> Locality \<Rightarrow> real" where
  "midnight eph date locale = standardFromLocal (localFromApparent eph (of_int \<lfloor>date\<rfloor>)) locale"

definition midday :: "Ephemeris \<Rightarrow> real \<Rightarrow> Locality \<Rightarrow> real" where
  "midday eph date locale =
     standardFromLocal (localFromApparent eph (of_int \<lfloor>date\<rfloor> + 0.5)) locale"

subsection \<open>Equinoxes\<close>

definition vernalEquinoxOnOrBefore :: "Ephemeris \<Rightarrow> int \<Rightarrow> real" where
  "vernalEquinoxOnOrBefore eph date =
     (let year = Gregorian_yearFromFixed date;
          spring = JD_toFixed (solstice_march eph year)
      in if spring > of_int date then JD_toFixed (solstice_march eph (year - 1)) else spring)"

definition autumnalEquinoxOnOrBefore :: "Ephemeris \<Rightarrow> int \<Rightarrow> real" where
  "autumnalEquinoxOnOrBefore eph date =
     (let year = Gregorian_yearFromFixed date;
          autumn = JD_toFixed (solstice_september eph year)
      in if autumn > of_int date then JD_toFixed (solstice_september eph (year - 1)) else autumn)"

subsection \<open>Dawn and dusk\<close>

text \<open>
  \<open>sineOffset\<close> is the local constant of that name in \<open>momentFromDepression\<close>. The
  source returns \<open>null\<close> where the model returns \<open>None\<close>.
\<close>

definition sineOffset :: "Ephemeris \<Rightarrow> real \<Rightarrow> Locality \<Rightarrow> real \<Rightarrow> real" where
  "sineOffset eph approx locale angle =
     (let t = universalFromLocal approx locale;
          \<delta> = apparentEquatorial_dec eph (JD_fromFixed t)
      in tan (latitude locale * D2R) * tan \<delta>
           + sin (angle * D2R) / (cos \<delta> * cos (latitude locale * D2R)))"

definition momentFromDepression :: "Ephemeris \<Rightarrow> real \<Rightarrow> Locality \<Rightarrow> real \<Rightarrow> real option" where
  "momentFromDepression eph approx locale angle =
     (let morning = (if rmod approx 1 < 0.5 then - 1 else 1);
          sineOffset = sineOffset eph approx locale angle
      in if \<bar>sineOffset\<bar> > 1 then None
         else Some (localFromApparent eph (of_int \<lfloor>approx\<rfloor> + 0.5
                + morning * (rmod (0.5 + arcsin sineOffset / (2 * pi)) 1 - 0.25))))"

definition dawn :: "Ephemeris \<Rightarrow> real \<Rightarrow> Locality \<Rightarrow> real \<Rightarrow> real option" where
  "dawn eph date locale angle =
     (let approx = momentFromDepression eph (date + 0.25) locale angle;
          x = (case approx of None \<Rightarrow> date | Some a \<Rightarrow> a);
          result = momentFromDepression eph x locale angle
      in case result of None \<Rightarrow> None | Some r \<Rightarrow> Some (standardFromLocal r locale))"

definition dusk :: "Ephemeris \<Rightarrow> real \<Rightarrow> Locality \<Rightarrow> real \<Rightarrow> real option" where
  "dusk eph date locale angle =
     (let approx = momentFromDepression eph (date + 0.75) locale angle;
          x = (case approx of None \<Rightarrow> date + 0.99 | Some a \<Rightarrow> a);
          result = momentFromDepression eph x locale angle
      in case result of None \<Rightarrow> None | Some r \<Rightarrow> Some (standardFromLocal r locale))"

subsection \<open>The lunar crescent\<close>

text \<open>
  In an arithmetic expression JavaScript reads \<open>null\<close> as the number \<open>0\<close>:
  \<open>null - x\<close> is \<open>0 - x\<close>.
\<close>

fun js_number :: "real option \<Rightarrow> real" where
  "js_number None = 0"
| "js_number (Some x) = x"

text \<open>
  \<open>isCrescentVisible_at\<close> is the body of \<open>isCrescentVisible\<close> from the point where
  \<open>jde\<close> is known; \<open>isCrescentVisible\<close> computes \<open>jde\<close> from the dusk of the day before.
\<close>

definition isCrescentVisible_at :: "Ephemeris \<Rightarrow> Locality \<Rightarrow> real \<Rightarrow> bool" where
  "isCrescentVisible_at eph locale jde =
     (let lunarPos_lon = moonposition_lon eph jde;
          lunarPos_lat = moonposition_lat eph jde;
          solarPos_lon = trueLongitude_lon eph (J2000Century eph jde);
          phase = rmod (lunarPos_lon - solarPos_lon) (2 * pi);
          \<epsilon> = meanObliquityLaskar eph jde;
          st = sidereal_apparent eph jde;
          lunarAltitude = horizontal_alt eph lunarPos_lon lunarPos_lat \<epsilon>
                            (latitude locale * D2R) (- longitude locale * D2R) st;
          arcOfLight = arccos (cos lunarPos_lat * cos phase)
      in 0 < phase \<and> phase < 90 * D2R
           \<and> 10.6 * D2R \<le> arcOfLight \<and> arcOfLight \<le> 90 * D2R
           \<and> lunarAltitude > 4.1 * D2R)"

definition isCrescentVisible :: "Ephemeris \<Rightarrow> real \<Rightarrow> Locality \<Rightarrow> bool" where
  "isCrescentVisible eph date locale =
     (let t = universalFromStandard (js_number (dusk eph (date - 1) locale 4.5)) locale;
          jde = JD_fromFixed t
      in isCrescentVisible_at eph locale jde)"

text \<open>The scan \<open>for (let i = 0; i < 30; i++)\<close> of \<open>phasisOnOrBefore\<close>, from \<open>i\<close> on.\<close>

function phasis_loop :: "Ephemeris \<Rightarrow> Locality \<Rightarrow> real \<Rightarrow> nat \<Rightarrow> real" where
  "phasis_loop eph locale tau i =
     (let crescent = tau + of_nat i in
      if isCrescentVisible eph crescent locale then crescent
      else if i + 1 < 30 then phasis_loop eph locale tau (i + 1)
      else crescent)"
  by pat_completeness auto
termination
  by (relation "measure (\<lambda>(eph, locale, tau, i). 30 - i)") auto

text \<open>
  \<open>phasis_mean\<close> and \<open>phasis_tau\<close> are the local constants \<open>mean\<close> and \<open>tau\<close> of
  \<open>phasisOnOrBefore\<close>, as they stand when the scan starts.
\<close>

definition phasis_mean :: "Ephemeris \<Rightarrow> real \<Rightarrow> real" where
  "phasis_mean eph date =
     (let jde = JD_fromFixed (date + 1);
          lunarPos_lon = moonposition_lon eph jde;
          solarPos_lon = true2000_lon eph (J2000Century eph jde);
          phase = rmod (lunarPos_lon - solarPos_lon) (2 * pi) / (2 * pi)
      in date - of_int \<lfloor>meanLunarMonth eph * phase\<rfloor>)"

definition phasis_tau :: "Ephemeris \<Rightarrow> real \<Rightarrow> Locality \<Rightarrow> real" where
  "phasis_tau eph date locale =
     (let mean = phasis_mean eph date
      in if date - mean \<le> 3 \<and> \<not> isCrescentVisible eph date locale then mean - 30
         else mean - 2)"

definition phasisOnOrBefore :: "Ephemeris \<Rightarrow> real \<Rightarrow> Locality \<Rightarrow> real" where
  "phasisOnOrBefore eph date locale = phasis_loop eph locale (phasis_tau eph date locale) 0"

section \<open>Astronomical calendars\<close>

definition MEAN_TROPICAL_YEAR :: real where
  "MEAN_TROPICAL_YEAR = 365.242189"

subsection \<open>Persian\<close>

definition Persian_EPOCH :: int where
  "Persian_EPOCH = 226896"

definition TEHRAN :: Locality where
  "TEHRAN = \<lparr>latitude = 35.68, longitude = 51.42, elevation = Some 1100, zone = 3.5\<rparr>"

definition middayInTehran :: "Ephemeris \<Rightarrow> real \<Rightarrow> real" where
  "middayInTehran eph date = universalFromStandard (midday eph date TEHRAN) TEHRAN"

definition Persian_newYearOnOrBefore :: "Ephemeris \<Rightarrow> int \<Rightarrow> int" where
  "Persian_newYearOnOrBefore eph date =
     (let previousEquinox = vernalEquinoxOnOrBefore eph (date + 1)
      in if previousEquinox < middayInTehran eph previousEquinox then \<lfloor>previousEquinox\<rfloor>
         else \<lfloor>previousEquinox\<rfloor> + 1)"

definition Persian_toFixed :: "Ephemeris \<Rightarrow> int \<Rightarrow> int \<Rightarrow> int \<Rightarrow> int" where
  "Persian_toFixed eph year month day =
     (let y = (if year > 0 then year - 1 else year);
          ny = Persian_newYearOnOrBefore eph
                 (Persian_EPOCH + 180 + \<lfloor>MEAN_TROPICAL_YEAR * of_int y\<rfloor>);
          m = (if month > 7 then 30 * (month - 1) + 6 else 31 * (month - 1))
      in ny - 1 + m + day)"

definition Persian_fromFixed :: "Ephemeris \<Rightarrow> int \<Rightarrow> DateArray" where
  "Persian_fromFixed eph date =
     (let ny = Persian_newYearOnOrBefore eph date;
          y = js_round (of_int (ny - Persian_EPOCH) / MEAN_TROPICAL_YEAR) + 1;
          year = (if y > 0 then y else y - 1);
          dayOfYear = date - Persian_toFixed eph year 1 1 + 1
      in if dayOfYear = 1 then toArray_int year 1 dayOfYear
         else
           let month = (if dayOfYear > 186 then \<lceil>real_of_int (dayOfYear - 6) / 30\<rceil>
                        else \<lceil>real_of_int dayOfYear / 31\<rceil>);
               day = date - Persian_toFixed eph year month 1 + 1
           in toArray_int year month day)"

subsection \<open>French Revolutionary\<close>

definition PARIS :: Locality where
  "PARIS = \<lparr>latitude = 48 + 50 / 60 + 11 / 3600, longitude = 2 + 20 / 60 + 14 / 3600,
             elevation = Some 27, zone = 1\<rparr>"

definition midnightInParis :: "Ephemeris \<Rightarrow> real \<Rightarrow> real" where
  "midnightInParis eph date = universalFromStandard (midnight eph (date + 1) PARIS) PARIS"

definition French_newYearOnOrBefore :: "Ephemeris \<Rightarrow> int \<Rightarrow> int" where
  "French_newYearOnOrBefore eph date =
     (let previousEquinox = autumnalEquinoxOnOrBefore eph (date + 1)
      in if previousEquinox < midnightInParis eph previousEquinox then \<lfloor>previousEquinox\<rfloor>
         else \<lfloor>previousEquinox\<rfloor> + 1)"

definition French_toFixed :: "Ephemeris \<Rightarrow> int \<Rightarrow> int \<Rightarrow> int \<Rightarrow> int" where
  "French_toFixed eph year month day =
     (let ny = French_newYearOnOrBefore eph
                 \<lfloor>of_int French_EPOCH + 180 + MEAN_TROPICAL_YEAR * of_int (year - 1)\<rfloor>
      in ny - 1 + 30 * (month - 1) + day)"

definition French_fromFixed :: "Ephemeris \<Rightarrow> int \<Rightarrow> DateArray" where
  "French_fromFixed eph date =
     (let ny = French_newYearOnOrBefore eph date;
          year = js_round (of_int (ny - French_EPOCH) / MEAN_TROPICAL_YEAR) + 1;
          month = (date - ny) div 30 + 1;
          day = mod_js (date - ny) 30 + 1
      in toArray_int year month day)"

text \<open>
  The condition on the library under which the French calendar is studied below. The
  ephemeris is regular at the Gregorian year \<open>Y\<close> when the September equinox that it
  gives for \<open>Y\<close> falls in the Gregorian year \<open>Y\<close>, and within 30 days of the mean
  equinox: the equinox of 1792 at the epoch of the calendar, and a mean tropical year
  for every year since.
\<close>

definition equinox_regular :: "Ephemeris \<Rightarrow> int \<Rightarrow> bool" where
  "equinox_regular eph Y =
     (let S = JD_toFixed (solstice_september eph Y)
      in of_int (Gregorian_toFixed Y 1 1) \<le> S \<and> S < of_int (Gregorian_toFixed (Y + 1) 1 1)
         \<and> \<bar>S - (of_int French_EPOCH + MEAN_TROPICAL_YEAR * of_int (Y - 1792))\<bar> \<le> 30)"

section \<open>Examples of an ephemeris and a place\<close>

text \<open>
  For statements at concrete inputs: an ephemeris that has the declination of the sun
  as given and every other value zero, and a place at latitude 60 degrees north on the
  meridian of Greenwich.
\<close>

definition example_ephemeris :: "(real \<Rightarrow> real) \<Rightarrow> Ephemeris" where
  "example_ephemeris dec =
     \<lparr>apparentEquatorial_dec = dec, eqtime_e = (\<lambda>_. 0),
      moonposition_lon = (\<lambda>_. 0), moonposition_lat = (\<lambda>_. 0), J2000Century = (\<lambda>_. 0),
      trueLongitude_lon = (\<lambda>_. 0), true2000_lon = (\<lambda>_. 0),
      meanObliquityLaskar = (\<lambda>_. 0), sidereal_apparent = (\<lambda>_. 0),
      horizontal_alt = (\<lambda>_ _ _ _ _ _. 0),
      solstice_march = (\<lambda>_. 0), solstice_september = (\<lambda>_. 0),
      meanLunarMonth = 29.530588861\<rparr>"

definition example_locality :: Locality where
  "example_locality = \<lparr>latitude = 60, longitude = 0, elevation = None, zone = 0\<rparr>"

text \<open>
  An ephemeris with the autumnal equinox of 1792 at the start of 22 September 1792
  (fixed date 654415, Julian day 2375839.5) and every other equinox a whole number of
  mean tropical years from it; and one with the equinox of 1793 only 85 days after
  that of 1792.
\<close>

definition equinox_ephemeris :: Ephemeris where
  "equinox_ephemeris =
     (example_ephemeris (\<lambda>_. 0))
       \<lparr>solstice_september := (\<lambda>y. 2375839.5 + 365.242189 * of_int (y - 1792))\<rparr>"

definition irregular_ephemeris :: Ephemeris where
  "irregular_ephemeris =
     (example_ephemeris (\<lambda>_. 0))
       \<lparr>solstice_september := (\<lambda>y. if y \<le> 1792 then 2375839.5 else 2375924.5)\<rparr>"

section \<open>Properties\<close>

subsection \<open>Weekday cycle\<close>

text \<open>Rounding to a double: how to evaluate it, the whole numbers it keeps, its error.\<close>

lemma pow2_powr: "pow2 e = 2 powr of_int e"
proof (cases "0 \<le> e")
  case True
  then have "2 powr real_of_int e = 2 powr real (nat e)" by simp
  also have "\<dots> = 2 ^ nat e" by (rule powr_realpow) simp
  finally show ?thesis using True by (simp add: pow2_def)
next
  case False
  then have "2 powr real_of_int e = 2 powr (- real (nat (- e)))" by simp
  also have "\<dots> = inverse (2 powr real (nat (- e)))" by (rule powr_minus)
  also have "2 powr real (nat (- e)) = 2 ^ nat (- e)" by (rule powr_realpow) simp
  finally show ?thesis using False by (simp add: pow2_def inverse_eq_divide)
qed

lemma double_eval:
  assumes lo: "pow2 (e + 52) \<le> \<bar>x\<bar>" and hi: "\<bar>x\<bar> < pow2 (e + 53)" and e: "- 1074 \<le> e"
  shows "double x = of_int (round_even (x / pow2 e)) * pow2 e"
proof -
  have p: "0 < pow2 (e + 52)" unfolding pow2_powr by simp
  then have x: "0 < \<bar>x\<bar>" using lo by linarith
  have "2 powr of_int (e + 52) \<le> \<bar>x\<bar> \<and> \<bar>x\<bar> < 2 powr (of_int (e + 52) + 1)"
    using lo hi unfolding pow2_powr by (simp add: add.commute add.left_commute)
  then have "\<lfloor>log 2 \<bar>x\<bar>\<rfloor> = e + 52"
    using x by (simp only: floor_log_eq_powr_iff [OF x, of 2 "e + 52"]) simp
  then show ?thesis using x e by (simp add: double_def Let_def)
qed


lemma round_even_of_int: "round_even (of_int m) = m"
  by (simp add: round_even_def)




lemma floor_log2_less:
  assumes "0 < x" "x < 2 ^ n"
  shows "\<lfloor>log 2 x\<rfloor> < int n"
proof -
  have "x < 2 powr real n" using assms(2) by (simp add: powr_realpow)
  then have "log 2 x < real n" using assms(1) by (simp add: log_less_iff)
  then show ?thesis by (simp add: floor_less_iff)
qed

lemma double_of_int:
  assumes "\<bar>n\<bar> < 2 ^ 53"
  shows "double (of_int n) = of_int n"
proof (cases "n = 0")
  case True
  then show ?thesis by (simp add: double_def)
next
  case False
  define x :: real where "x = \<bar>of_int n\<bar>"
  define L where "L = \<lfloor>log 2 x\<rfloor>"
  have x1: "1 \<le> x" using False unfolding x_def by (simp flip: of_int_abs)
  have "x < 2 ^ 53" using assms unfolding x_def
    by (metis of_int_abs of_int_less_numeral_power_cancel_iff)
  then have L1: "L < 53" unfolding L_def using floor_log2_less [of x 53] x1 by simp
  have "0 \<le> log 2 x" using x1 by simp
  then have L0: "0 \<le> L" unfolding L_def by simp
  define j where "j = nat (52 - L)"
  have e: "max (L - 52) (- 1074) = L - 52" using L0 by simp
  have p: "pow2 (L - 52) = 1 / 2 ^ j"
    using L1 unfolding pow2_def j_def by (cases "L = 52") simp_all
  have "of_int n / pow2 (L - 52) = real_of_int (n * 2 ^ j)" unfolding p by simp
  then have "round_even (of_int n / pow2 (L - 52)) = n * 2 ^ j"
    by (simp only: round_even_of_int)
  then have "double (of_int n) = of_int (n * 2 ^ j) * (1 / 2 ^ j)"
    using False unfolding double_def Let_def x_def [symmetric] L_def [symmetric] e p by simp
  then show ?thesis by simp
qed



subsection \<open>Weekday cycle\<close>








subsection \<open>Conformance vectors\<close>

lemmas cal_defs = Gregorian_toFixed_def Gregorian_isLeapYear_def Julian_toFixed_def
  Julian_isLeapYear_def Julian_EPOCH_def Islamic_toFixed_def Islamic_EPOCH_def mod_js_def
  JD_fromFixed_def JD_EPOCH_def

text \<open>
  C2, as stated: the four vectors \<open>Gregorian.toFixed(1970,1,1) = 719163\<close>,
  \<open>JD.fromFixed(719163) = 2440587.5\<close>, \<open>Islamic.toFixed(622,7,16) = 227015\<close> and
  \<open>Julian.toFixed(0,12,30) = -1\<close> do not hold together: the Julian date 30 December of
  year 0 is the fixed date \<open>-4\<close>.
\<close>

theorem conformance_vectors_counterexample:
  "\<not> (Gregorian_toFixed 1970 1 1 = 719163 \<and> JD_fromFixed 719163 = 2440587.5
       \<and> Islamic_toFixed 622 7 16 = 227015 \<and> Julian_toFixed 0 12 30 = - 1)"
  by (simp add: Julian_toFixed_def Julian_isLeapYear_def Julian_EPOCH_def mod_js_def)

text \<open>
  C2, amended. The source's comments give the two epochs in the other calendar:
  \<open>Islamic.EPOCH = 227015 // = Julian.toFixed(622,7,16)\<close> and
  \<open>Julian EPOCH = -1 // = Gregorian.toFixed(0,12,30)\<close>. So
  \<open>Julian.toFixed(622,7,16) = 227015 = Islamic.toFixed(1,1,1)\<close> and
  \<open>Gregorian.toFixed(0,12,30) = -1 = Julian.toFixed(1,1,1)\<close>, next to the first two
  vectors; \<open>Islamic.toFixed(622,7,16)\<close> is \<open>447269\<close> and \<open>Julian.toFixed(0,12,30)\<close> is
  \<open>-4\<close>.
\<close>

theorem conformance_vectors:
  "Gregorian_toFixed 1970 1 1 = 719163 \<and> JD_fromFixed 719163 = 2440587.5
     \<and> Julian_toFixed 622 7 16 = 227015 \<and> Islamic_EPOCH = 227015
     \<and> Islamic_toFixed 1 1 1 = Islamic_EPOCH
     \<and> Gregorian_toFixed 0 12 30 = - 1 \<and> Julian_EPOCH = - 1
     \<and> Julian_toFixed 1 1 1 = Julian_EPOCH
     \<and> Islamic_toFixed 622 7 16 = 447269 \<and> Julian_toFixed 0 12 30 = - 4"
  by (simp add: cal_defs)

subsection \<open>Fractional days\<close>

text \<open>Noon: half a day is twelve hours.\<close>

lemma toArray_noon: "toArray 1 1 (1 / 2) = (1, 1, 0, 12, 0, 0)"
proof -
  have h: "double (1 / 2 - of_int 0) = 1 / 2"
    by (subst double_eval [of "- 53"]) (simp_all add: pow2_def round_even_def Let_def)
  have n: "double 12 = 12" "double 720 = 720" "double 43200 = 43200" "double 0 = 0"
    using double_of_int [of 12] double_of_int [of 720] double_of_int [of 43200]
      double_of_int [of 0] by simp_all
  have fl: "\<lfloor>1 / 2 :: real\<rfloor> = 0" by simp
  show ?thesis unfolding toArray_def Let_def fl h by (simp add: n js_round_def)
qed

text \<open>
  C7. The time of day that \<open>toArray\<close> returns is not always normalized. The day
  \<open>-2^-60\<close>, a double just below 0, has the whole day \<open>-1\<close>, and the excess
  \<open>day - rday = 1 - 2^-60\<close> rounds to 1: a full day. So the hour is 24, the minute and
  the second are 0, and the carry, which the source does only for a second rounded to
  60, does not happen: the result is day \<open>-1\<close>, hour 24. The same happens at every
  fractional day whose distance to the next whole day rounds away.
\<close>

theorem toArray_not_normalized:
  "toArray 1 1 (- (1 / 2 ^ 60)) = (1, 1, - 1, 24, 0, 0)"
proof -
  have fl: "\<lfloor>- (1 / 2 ^ 60) :: real\<rfloor> = - 1" by (simp add: floor_eq_iff)
  have h: "double (- (1 / 2 ^ 60) - of_int (- 1)) = 1"
    by (subst double_eval [of "- 53"]) (simp_all add: pow2_def round_even_def Let_def)
  have n: "double 24 = 24" "double 1440 = 1440" "double 86400 = 86400" "double 0 = 0"
    using double_of_int [of 24] double_of_int [of 1440] double_of_int [of 86400]
      double_of_int [of 0] by simp_all
  show ?thesis unfolding toArray_def Let_def fl h by (simp add: n js_round_def)
qed

subsection \<open>Depression angle, dawn and dusk\<close>

lemma sineOffset_example:
  "sineOffset (example_ephemeris dec) approx example_locality angle
     = sqrt 3 * tan (dec (approx + 1721424.5))
         + sin (angle * (pi / 180)) / (cos (dec (approx + 1721424.5)) * (1 / 2))"
  by (simp add: sineOffset_def example_ephemeris_def example_locality_def Let_def D2R_def
      universalFromLocal_def JD_fromFixed_def JD_EPOCH_def tan_60 cos_60)

lemma sin_small_angle:
  assumes "0 < angle" "angle < 30"
  shows "0 < sin (angle * (pi / 180))" "sin (angle * (pi / 180)) < 1 / 2"
proof -
  have a: "0 < angle * (pi / 180)" "angle * (pi / 180) < pi / 6"
    using assms pi_gt_zero by (simp_all add: field_simps)
  show "0 < sin (angle * (pi / 180))"
    using a pi_gt_zero by (intro sin_gt_zero) linarith+
  have "sin (angle * (pi / 180)) < sin (pi / 6)"
    using a pi_gt_zero by (intro sin_monotone_2pi) linarith+
  then show "sin (angle * (pi / 180)) < 1 / 2" by (simp add: sin_30)
qed

lemma sineOffset_example_high:
  assumes "dec (approx + 1721424.5) = pi / 6" "0 < angle" "angle < 30"
  shows "\<bar>sineOffset (example_ephemeris dec) approx example_locality angle\<bar> > 1"
proof -
  have "0 < sin (angle * (pi / 180)) / (sqrt 3 / 2 * (1 / 2))"
    using sin_small_angle(1) [OF assms(2,3)] by simp
  then show ?thesis
    unfolding sineOffset_example assms(1) by (simp add: tan_30 cos_30)
qed

lemma sineOffset_example_low:
  assumes "dec (approx + 1721424.5) = 0" "0 < angle" "angle < 30"
  shows "\<not> \<bar>sineOffset (example_ephemeris dec) approx example_locality angle\<bar> > 1"
  using sin_small_angle [OF assms(2,3)]
  unfolding sineOffset_example assms(1) by simp

lemma momentFromDepression_None:
  "(momentFromDepression eph approx loc angle = None) = (\<bar>sineOffset eph approx loc angle\<bar> > 1)"
  by (simp add: momentFromDepression_def Let_def)

text \<open>
  C3. Whenever the sine offset computed for the instant, the place and the angle is
  above 1 or below -1, \<open>momentFromDepression\<close> returns the no-value result (the
  model has no exceptions and no NaN: a result is a real number or \<open>None\<close>).
\<close>

theorem momentFromDepression_no_value:
  "\<bar>sineOffset eph approx loc angle\<bar> > 1 \<Longrightarrow> momentFromDepression eph approx loc angle = None"
  by (simp add: momentFromDepression_def Let_def)

theorem momentFromDepression_no_value_witness:
  "\<bar>sineOffset (example_ephemeris (\<lambda>_. pi / 6)) 0 example_locality 4.5\<bar> > 1
     \<and> momentFromDepression (example_ephemeris (\<lambda>_. pi / 6)) 0 example_locality 4.5 = None"
proof -
  have h: "\<bar>sineOffset (example_ephemeris (\<lambda>_. pi / 6)) 0 example_locality 4.5\<bar> > 1"
    by (rule sineOffset_example_high) simp_all
  from h momentFromDepression_no_value [OF h] show ?thesis by simp
qed

text \<open>
  C4, as stated: a no-value result of the first pass does not make \<open>dawn\<close> or \<open>dusk\<close>
  return no value. With the sun at declination 30 degrees at the instant of the first
  pass and on the equator at the fallback instant, at latitude 60 degrees and a
  depression of 4.5 degrees, the first pass returns no value and \<open>dawn\<close> (resp.
  \<open>dusk\<close>) returns a moment.
\<close>

theorem dawn_first_pass_counterexample:
  "momentFromDepression (example_ephemeris (\<lambda>jd. if jd < 1721424.75 then 0 else pi / 6))
       (0 + 0.25) example_locality 4.5 = None
   \<and> dawn (example_ephemeris (\<lambda>jd. if jd < 1721424.75 then 0 else pi / 6))
       0 example_locality 4.5 \<noteq> None
   \<and> momentFromDepression (example_ephemeris (\<lambda>jd. if jd < 1721425.4 then pi / 6 else 0))
       (0 + 0.75) example_locality 4.5 = None
   \<and> dusk (example_ephemeris (\<lambda>jd. if jd < 1721425.4 then pi / 6 else 0))
       0 example_locality 4.5 \<noteq> None"
proof -
  let ?E = "example_ephemeris (\<lambda>jd. if jd < 1721424.75 then 0 else pi / 6)"
  let ?F = "example_ephemeris (\<lambda>jd. if jd < 1721425.4 then pi / 6 else 0)"
  have 1: "momentFromDepression ?E (0 + 0.25) example_locality 4.5 = None"
    unfolding momentFromDepression_None by (rule sineOffset_example_high) simp_all
  have 2: "momentFromDepression ?E 0 example_locality 4.5 \<noteq> None"
    unfolding momentFromDepression_None by (rule sineOffset_example_low) simp_all
  have 3: "momentFromDepression ?F (0 + 0.75) example_locality 4.5 = None"
    unfolding momentFromDepression_None by (rule sineOffset_example_high) simp_all
  have 4: "momentFromDepression ?F (0 + 0.99) example_locality 4.5 \<noteq> None"
    unfolding momentFromDepression_None by (rule sineOffset_example_low) simp_all
  have "dawn ?E 0 example_locality 4.5 \<noteq> None"
    using 1 2 by (auto simp add: dawn_def Let_def split: option.splits)
  moreover have "dusk ?F 0 example_locality 4.5 \<noteq> None"
    using 3 4 by (auto simp add: dusk_def Let_def split: option.splits)
  ultimately show ?thesis using 1 3 by blast
qed

text \<open>
  C4, amended. The second pass starts from the result of the first, or from \<open>date\<close>
  (for \<open>dusk\<close>: \<open>date + 0.99\<close>) when the first pass returned no value; \<open>dawn\<close> and
  \<open>dusk\<close> return no value exactly when the second pass does, and otherwise the
  standard time of its moment.
\<close>

theorem dawn_dusk_second_pass:
  "dawn eph date loc angle
     = map_option (\<lambda>r. standardFromLocal r loc)
         (momentFromDepression eph
            (case momentFromDepression eph (date + 0.25) loc angle of
               None \<Rightarrow> date | Some a \<Rightarrow> a) loc angle)
   \<and> dusk eph date loc angle
     = map_option (\<lambda>r. standardFromLocal r loc)
         (momentFromDepression eph
            (case momentFromDepression eph (date + 0.75) loc angle of
               None \<Rightarrow> date + 0.99 | Some a \<Rightarrow> a) loc angle)"
  by (simp add: dawn_def dusk_def Let_def split: option.splits)

subsection \<open>Crescent visibility\<close>

lemma isCrescentVisible_dusk_None:
  "dusk eph (date - 1) loc 4.5 = None \<Longrightarrow>
     isCrescentVisible eph date loc
       = isCrescentVisible_at eph loc (JD_fromFixed (0 - zone loc / 24))"
  by (simp add: isCrescentVisible_def Let_def universalFromStandard_def)

lemma dusk_example_None: "dusk (example_ephemeris (\<lambda>_. pi / 6)) date example_locality 4.5 = None"
proof -
  have "momentFromDepression (example_ephemeris (\<lambda>_. pi / 6)) x example_locality 4.5 = None" for x
    unfolding momentFromDepression_None by (rule sineOffset_example_high) simp_all
  then show ?thesis by (simp add: dusk_def Let_def)
qed

text \<open>
  C5. \<open>isCrescentVisible\<close> does not test the result of \<open>dusk\<close>. When \<open>dusk\<close> returns
  no value, the subtraction in \<open>universalFromStandard\<close> reads it as 0, and the
  position of the moon and of the sun are taken at the Julian day of the fixed date
  \<open>- zone / 24\<close>, whatever the date asked for.
\<close>

theorem isCrescentVisible_null_dusk:
  "dusk eph (date - 1) loc 4.5 = None \<Longrightarrow>
     isCrescentVisible eph date loc
       = isCrescentVisible_at eph loc (JD_fromFixed (0 - zone loc / 24))"
  by (rule isCrescentVisible_dusk_None)

theorem isCrescentVisible_null_dusk_witness:
  "dusk (example_ephemeris (\<lambda>_. pi / 6)) (737232 - 1) example_locality 4.5 = None
   \<and> isCrescentVisible (example_ephemeris (\<lambda>_. pi / 6)) 737232 example_locality
       = isCrescentVisible_at (example_ephemeris (\<lambda>_. pi / 6)) example_locality
           (JD_fromFixed (0 - zone example_locality / 24))"
  using dusk_example_None [of "737232 - 1"]
    isCrescentVisible_null_dusk [OF dusk_example_None [of "737232 - 1"]]
  by simp

lemma isCrescentVisible_example:
  "\<not> isCrescentVisible (example_ephemeris (\<lambda>_. pi / 6)) date example_locality"
  unfolding isCrescentVisible_dusk_None [OF dusk_example_None]
  by (simp add: isCrescentVisible_at_def example_ephemeris_def Let_def rmod_def)

declare phasis_loop.simps [simp del]

lemma phasis_loop_scan:
  assumes "i < 30"
  shows "\<exists>k. i \<le> k \<and> k < 30 \<and> phasis_loop eph loc tau i = tau + of_nat k
           \<and> (\<forall>j. i \<le> j \<and> j < k \<longrightarrow> \<not> isCrescentVisible eph (tau + of_nat j) loc)
           \<and> (isCrescentVisible eph (tau + of_nat k) loc \<or> k = 29)"
  using assms
proof (induction eph loc tau i rule: phasis_loop.induct)
  case (1 eph loc tau i)
  show ?case
  proof (cases "isCrescentVisible eph (tau + of_nat i) loc")
    case True
    then have "phasis_loop eph loc tau i = tau + of_nat i"
      by (subst phasis_loop.simps) (simp add: Let_def)
    with True "1.prems" show ?thesis by (intro exI [of _ i]) auto
  next
    case False
    show ?thesis
    proof (cases "i + 1 < 30")
      case True
      from "1.IH" [OF refl False True True]
      obtain k where k: "i + 1 \<le> k" "k < 30" "phasis_loop eph loc tau (i + 1) = tau + of_nat k"
        "\<forall>j. i + 1 \<le> j \<and> j < k \<longrightarrow> \<not> isCrescentVisible eph (tau + of_nat j) loc"
        "isCrescentVisible eph (tau + of_nat k) loc \<or> k = 29"
        by blast
      have "phasis_loop eph loc tau i = tau + of_nat k"
        using False True k(3) by (subst phasis_loop.simps) (simp add: Let_def)
      moreover have "\<forall>j. i \<le> j \<and> j < k \<longrightarrow> \<not> isCrescentVisible eph (tau + of_nat j) loc"
      proof (intro allI impI)
        fix j assume j: "i \<le> j \<and> j < k"
        show "\<not> isCrescentVisible eph (tau + of_nat j) loc"
        proof (cases "j = i")
          case True then show ?thesis using False by simp
        next
          case False then show ?thesis using j k(4) by simp
        qed
      qed
      ultimately show ?thesis using k(1,2,5) by (intro exI [of _ k]) auto
    next
      case i29: False
      then have "i = 29" using "1.prems" by simp
      moreover have "phasis_loop eph loc tau i = tau + of_nat i"
        using False i29 by (subst phasis_loop.simps) (simp add: Let_def)
      ultimately show ?thesis by (intro exI [of _ i]) auto
    qed
  qed
qed

text \<open>
  C10. \<open>phasisOnOrBefore\<close> tries the days \<open>tau\<close>, \<open>tau + 1\<close>, ... in turn, at most
  30 of them, and returns the first one on which the crescent is visible; when none of
  the 30 is, it returns the last one, \<open>tau + 29\<close>. It always returns a day. The start
  \<open>tau\<close> is two days before the mean date, or 30 days before it when the mean date is
  at most 3 days before the date asked and the crescent is not visible on that date.
\<close>

theorem phasisOnOrBefore_scan:
  "(\<exists>k<30. phasisOnOrBefore eph date loc = phasis_tau eph date loc + of_nat k
      \<and> (\<forall>j<k. \<not> isCrescentVisible eph (phasis_tau eph date loc + of_nat j) loc)
      \<and> (isCrescentVisible eph (phasisOnOrBefore eph date loc) loc \<or> k = 29))
   \<and> phasis_tau eph date loc =
       (if date - phasis_mean eph date \<le> 3 \<and> \<not> isCrescentVisible eph date loc
        then phasis_mean eph date - 30 else phasis_mean eph date - 2)"
proof -
  have tau: "phasis_tau eph date loc =
       (if date - phasis_mean eph date \<le> 3 \<and> \<not> isCrescentVisible eph date loc
        then phasis_mean eph date - 30 else phasis_mean eph date - 2)"
    by (simp add: phasis_tau_def Let_def)
  obtain k where k: "k < 30" "phasis_loop eph loc (phasis_tau eph date loc) 0 = phasis_tau eph date loc + of_nat k"
     "\<forall>j. 0 \<le> j \<and> j < k \<longrightarrow> \<not> isCrescentVisible eph (phasis_tau eph date loc + of_nat j) loc"
     "isCrescentVisible eph (phasis_tau eph date loc + of_nat k) loc \<or> k = 29"
    using phasis_loop_scan [of 0 eph loc "phasis_tau eph date loc"] by auto
  have "\<exists>k<30. phasisOnOrBefore eph date loc = phasis_tau eph date loc + of_nat k
      \<and> (\<forall>j<k. \<not> isCrescentVisible eph (phasis_tau eph date loc + of_nat j) loc)
      \<and> (isCrescentVisible eph (phasisOnOrBefore eph date loc) loc \<or> k = 29)"
    unfolding phasisOnOrBefore_def using k by (intro exI [of _ k]) auto
  with tau show ?thesis by (rule conjI [rotated])
qed

text \<open>
  With the example ephemeris the crescent is never visible: the scan from the fixed date
  0 tries 30 days and returns the last.
\<close>

theorem phasisOnOrBefore_scan_witness:
  "phasisOnOrBefore (example_ephemeris (\<lambda>_. pi / 6)) 0 example_locality
     = phasis_tau (example_ephemeris (\<lambda>_. pi / 6)) 0 example_locality + 29
   \<and> \<not> isCrescentVisible (example_ephemeris (\<lambda>_. pi / 6))
         (phasisOnOrBefore (example_ephemeris (\<lambda>_. pi / 6)) 0 example_locality)
         example_locality"
  using phasisOnOrBefore_scan [of "example_ephemeris (\<lambda>_. pi / 6)" 0 example_locality]
  by (auto simp add: isCrescentVisible_example)

subsection \<open>Mayan calendar round\<close>

lemma roundOnOrBefore_Some:
  "(roundOnOrBefore hm hday tn tna date \<noteq> None)
     = ((Tzolkin_ordinal tn tna - Haab_ordinal hm hday) mod 5 = 0)"
  by (simp add: roundOnOrBefore_def Let_def mod_js_eq)

lemma roundOnOrBefore_epoch_pair:
  "roundOnOrBefore 18 8 4 20 (- 1137142) = None
     \<and> Haab_fromFixed (- 1137142) = (18, 8) \<and> Tzolkin_fromFixed (- 1137142) = (4, 20)"
  by (simp add: roundOnOrBefore_def Haab_fromFixed_def Tzolkin_fromFixed_def Haab_ordinal_def
      Tzolkin_ordinal_def Haab_EPOCH_def Tzolkin_EPOCH_def LongCount_EPOCH_def mod_js_def
      amod_js_def Let_def)

text \<open>
  C6. \<open>roundOnOrBefore\<close> returns a date exactly when the stated congruence holds
  (\<open>roundOnOrBefore_Some\<close>) and \<open>null\<close> otherwise, without raising. The date it returns
  is not a matching date: it adds the two ordinals to \<open>LongCount.EPOCH\<close>, not to
  \<open>Haab.EPOCH\<close> and \<open>Tzolkin.EPOCH\<close> as \<open>Haab.onOrBefore\<close> and \<open>Tzolkin.onOrBefore\<close>
  do, so the Haab date of the day it returns is 348 days away from the Haab date asked
  for. Whatever the input, the day returned does not have the Haab month and day given.
\<close>

theorem roundOnOrBefore_never_matches:
  assumes "roundOnOrBefore haabMonth haabDay tzolkinNumber tzolkinName date = Some r"
  shows "Haab_fromFixed r \<noteq> (haabMonth, haabDay)"
proof
  assume m: "Haab_fromFixed r = (haabMonth, haabDay)"
  define h where "h = Haab_ordinal haabMonth haabDay"
  define diff where "diff = Tzolkin_ordinal tzolkinNumber tzolkinName - h"
  define K where "K = h + LongCount_EPOCH + 365 * diff"
  define q where "q = (date - K) div 18980"
  define c where "c = (r - Haab_EPOCH) mod 365"
  have "r = date - (date - (h + LongCount_EPOCH) - 365 * diff) mod 18980"
    using assms unfolding roundOnOrBefore_def Let_def mod_js_eq h_def diff_def
    by (simp split: if_splits)
  then have "r = date - (date - K) mod 18980"
    by (simp add: K_def algebra_simps)
  then have "r = K + 18980 * q"
    unfolding q_def using div_mult_mod_eq [of "date - K" 18980] by linarith
  then have "r - Haab_EPOCH = h + 348 + 365 * (diff + 52 * q)"
    by (simp add: K_def Haab_EPOCH_def Haab_ordinal_def)
  then have c: "c = (h + 348) mod 365"
    unfolding c_def by (simp only: mod_mult_self2)
  have "haabMonth = c div 20 + 1" "haabDay = c mod 20"
    using m unfolding Haab_fromFixed_def Let_def mod_js_eq c_def by simp_all
  then have hc: "h = c" unfolding h_def Haab_ordinal_def by simp
  have "c mod 365 = c" unfolding c_def by simp
  with c hc have "(c + 348) mod 365 = c mod 365" by simp
  then have "(365::int) dvd (c + 348) - c" by (simp only: mod_eq_dvd_iff)
  then show False by simp
qed

text \<open>
  At Haab 1/1 and Tzolkin 2/2 the congruence holds and the day returned is the day asked
  from, one day after the Long Count epoch; its Haab date is 18/9 and its Tzolkin date
  5/1.
\<close>

theorem roundOnOrBefore_never_matches_witness:
  "roundOnOrBefore 1 1 2 2 (- 1137141) = Some (- 1137141)
     \<and> Haab_fromFixed (- 1137141) \<noteq> (1, 1)
     \<and> Haab_fromFixed (- 1137141) = (18, 9) \<and> Tzolkin_fromFixed (- 1137141) = (5, 1)"
proof -
  have r: "roundOnOrBefore 1 1 2 2 (- 1137141) = Some (- 1137141)"
    by (simp add: roundOnOrBefore_def Haab_ordinal_def Tzolkin_ordinal_def LongCount_EPOCH_def
        mod_js_def Let_def)
  have "Haab_fromFixed (- 1137141) = (18, 9) \<and> Tzolkin_fromFixed (- 1137141) = (5, 1)"
    by (simp add: Haab_fromFixed_def Tzolkin_fromFixed_def Haab_ordinal_def
        Tzolkin_ordinal_def Haab_EPOCH_def Tzolkin_EPOCH_def LongCount_EPOCH_def mod_js_def
        amod_js_def Let_def)
  with r roundOnOrBefore_never_matches [OF r] show ?thesis by simp
qed

subsection \<open>Length of the Hebrew year\<close>

text \<open>
  For the proof: the day of the molad of Tishri in whole numbers (\<open>molad_day\<close>), the
  step of \<open>elapsedDays\<close> past a Sunday, Wednesday or Friday (\<open>adjust_day\<close>), the rule of
  \<open>newYearDelay\<close> on three given days (\<open>delay_of\<close>), and the length of the year that
  four successive molad days give (\<open>length_of\<close>).
\<close>

definition adjust_day :: "int \<Rightarrow> int" where
  "adjust_day d = (if (3 * (d + 1)) mod 7 < 3 then d + 1 else d)"

definition delay_of :: "int \<Rightarrow> int \<Rightarrow> int \<Rightarrow> int" where
  "delay_of e0 e1 e2 = (if e2 - e1 = 356 then 2 else if e1 - e0 = 382 then 1 else 0)"

definition length_of :: "int \<Rightarrow> int \<Rightarrow> int \<Rightarrow> int \<Rightarrow> int" where
  "length_of p a b c =
     (adjust_day b + delay_of (adjust_day a) (adjust_day b) (adjust_day c))
       - (adjust_day a + delay_of (adjust_day p) (adjust_day a) (adjust_day b))"

definition molad_day :: "int \<Rightarrow> int" where
  "molad_day year = (765433 * ((235 * year - 234) div 19) + 12084) div 25920"

lemma elapsedDays_adjust: "elapsedDays year = adjust_day (molad_day year)"
  unfolding elapsedDays_def molad_tishri_floor
  by (simp add: Let_def adjust_day_def molad_day_def mod_js_eq)

lemma newYearDelay_delay_of:
  "newYearDelay year = delay_of (elapsedDays (year - 1)) (elapsedDays year) (elapsedDays (year + 1))"
  by (simp add: newYearDelay_def delay_of_def Let_def)

lemma daysInYear_length_of:
  "daysInYear year
     = length_of (molad_day (year - 1)) (molad_day year) (molad_day (year + 1)) (molad_day (year + 2))"
proof -
  have e: "year + 1 - 1 = year" "year + 1 + 1 = year + 2" by simp_all
  show ?thesis
    unfolding daysInYear_def newYear_def newYearDelay_delay_of elapsedDays_adjust length_of_def e
    by simp
qed

















text \<open>Both delays occur, and the years 5780 to 5784 have the lengths of the tables.\<close>

lemma newYearDelay_examples:
  "newYearDelay 5745 = 2 \<and> newYearDelay 5766 = 1 \<and> newYearDelay 5784 = 0
     \<and> daysInYear 5780 = 355 \<and> daysInYear 5781 = 353 \<and> daysInYear 5782 = 384
     \<and> daysInYear 5783 = 355 \<and> daysInYear 5784 = 383"
  by (simp add: daysInYear_length_of newYearDelay_delay_of elapsedDays_adjust length_of_def
      delay_of_def adjust_day_def molad_day_def)


subsection \<open>Round trip\<close>

text \<open>On a whole day \<open>toArray\<close> is the whole-number helper.\<close>

lemma toArray_whole: "toArray year month (of_int day) = toArray_int year month day"
  by (simp add: toArray_def toArray_int_def)

lemma Egyptian_round_trip: "toFixed_of Egyptian_toFixed (Egyptian_fromFixed d) = d"
  by (simp add: Egyptian_fromFixed_def Egyptian_toFixed_def toArray_int_def Let_def)

lemma Armenian_round_trip: "toFixed_of Armenian_toFixed (Armenian_fromFixed d) = d"
  by (simp add: Armenian_fromFixed_def Armenian_toFixed_def Egyptian_fromFixed_def
      Egyptian_toFixed_def toArray_int_def Let_def)

lemma Gregorian_toFixed_day:
  "Gregorian_toFixed year month (date - Gregorian_toFixed year month 1 + 1) = date"
  by (simp add: Gregorian_toFixed_def Let_def)

lemma Gregorian_round_trip: "toFixed_of Gregorian_toFixed (Gregorian_fromFixed d) = d"
  by (simp add: Gregorian_fromFixed_def toArray_int_def Let_def Gregorian_toFixed_day)

lemma Julian_toFixed_day:
  "Julian_toFixed year month (date - Julian_toFixed year month 1 + 1) = date"
  by (simp add: Julian_toFixed_def Let_def)

lemma Julian_round_trip: "toFixed_of Julian_toFixed (Julian_fromFixed d) = d"
  by (simp add: Julian_fromFixed_def toArray_int_def Let_def Julian_toFixed_day)

lemma Coptic_toFixed_day:
  "Coptic_toFixed year month (date + 1 - Coptic_toFixed year month 1) = date"
  by (simp add: Coptic_toFixed_def)

lemma Coptic_round_trip: "toFixed_of Coptic_toFixed (Coptic_fromFixed d) = d"
  by (simp add: Coptic_fromFixed_def toArray_int_def Let_def Coptic_toFixed_day)

lemma Ethiopic_round_trip: "toFixed_of Ethiopic_toFixed (Ethiopic_fromFixed d) = d"
proof -
  have "Ethiopic_toFixed year month (date + 1 - Coptic_toFixed year month 1)
          = date + Ethiopic_EPOCH - Coptic_EPOCH" for year month date
    by (simp add: Ethiopic_toFixed_def Coptic_toFixed_def)
  then show ?thesis
    by (simp add: Ethiopic_fromFixed_def Coptic_fromFixed_def toArray_int_def Let_def)
qed

lemma Islamic_toFixed_day:
  "Islamic_toFixed year month (date - Islamic_toFixed year month 1 + 1) = date"
  by (simp add: Islamic_toFixed_def)

lemma Islamic_round_trip: "toFixed_of Islamic_toFixed (Islamic_fromFixed d) = d"
  by (simp add: Islamic_fromFixed_def toArray_int_def Let_def Islamic_toFixed_day)

lemma Hebrew_toFixed_day:
  "Hebrew_toFixed year month (date - Hebrew_toFixed year month 1 + 1) = date"
  by (simp add: Hebrew_toFixed_def Let_def)

lemma Hebrew_round_trip: "toFixed_of Hebrew_toFixed (Hebrew_fromFixed d) = d"
  by (simp add: Hebrew_fromFixed_def toArray_int_def Let_def Hebrew_toFixed_day)

lemma Modified_toFixed_day:
  "Modified_toFixed year month (date - Modified_toFixed year month 1 + 1) = date"
  by (simp add: Modified_toFixed_def)

lemma Modified_round_trip: "toFixed_of Modified_toFixed (Modified_fromFixed d) = d"
  by (simp add: Modified_fromFixed_def toArray_int_def Let_def Modified_toFixed_day)

lemma Persian_toFixed_day:
  "Persian_toFixed eph year month (date - Persian_toFixed eph year month 1 + 1) = date"
  by (simp add: Persian_toFixed_def Let_def)

lemma Persian_round_trip: "toFixed_of (Persian_toFixed eph) (Persian_fromFixed eph d) = d"
  by (simp add: Persian_fromFixed_def toArray_int_def Let_def Persian_toFixed_day)

lemma LongCount_round_trip: "LongCount_toFixed_of (LongCount_fromFixed d) = d"
proof -
  define lc where "lc = d - LongCount_EPOCH"
  have "lc = 144000 * (lc div 144000) + lc mod 144000" by simp
  moreover have "lc mod 144000 = 7200 * (lc mod 144000 div 7200) + lc mod 144000 mod 7200"
    by simp
  moreover have "lc mod 144000 mod 7200
      = 360 * (lc mod 144000 mod 7200 div 360) + lc mod 144000 mod 7200 mod 360"
    by simp
  moreover have "lc mod 144000 mod 7200 mod 360
      = 20 * (lc mod 144000 mod 7200 mod 360 div 20) + lc mod 144000 mod 7200 mod 360 mod 20"
    by simp
  ultimately have "lc = 144000 * (lc div 144000) + 7200 * (lc mod 144000 div 7200)
      + 360 * (lc mod 144000 mod 7200 div 360) + 20 * (lc mod 144000 mod 7200 mod 360 div 20)
      + lc mod 144000 mod 7200 mod 360 mod 20"
    by linarith
  then show ?thesis
    unfolding LongCount_fromFixed_def Let_def mod_js_eq LongCount_toFixed_of.simps
      LongCount_toFixed_def lc_def [symmetric]
    by (simp add: lc_def)
qed

text \<open>The ISO week calendar: the year found starts on a Monday not after the date.\<close>

lemma div_pred:
  fixes n k :: int
  assumes k: "0 < k"
  shows "(n - 1) div k = (if n mod k = 0 then n div k - 1 else n div k)"
proof -
  define q where "q = n div k"
  define r where "r = n mod k"
  have n: "n = r + k * q" unfolding q_def r_def by simp
  have r: "0 \<le> r" "r < k" unfolding r_def using k by simp_all
  show ?thesis
  proof (cases "r = 0")
    case True
    have "n - 1 = (k - 1) + k * (q - 1)" unfolding n True by (simp add: algebra_simps)
    then have "(n - 1) div k = (q - 1) + (k - 1) div k"
      using k by (simp only: div_mult_self2) 
    also have "(k - 1) div k = 0" using k by simp
    finally show ?thesis using True unfolding r_def q_def by simp
  next
    case False
    have "n - 1 = (r - 1) + k * q" unfolding n by simp
    then have "(n - 1) div k = q + (r - 1) div k"
      using k by (simp only: div_mult_self2)
    also have "(r - 1) div k = 0" using r False by simp
    finally show ?thesis using False unfolding r_def q_def by simp
  qed
qed

lemma Gregorian_new_year:
  "Gregorian_toFixed y 1 1
     = 365 * (y - 1) + (y - 1) div 4 - (y - 1) div 100 + (y - 1) div 400 + 1"
  by (simp add: Gregorian_toFixed_def)

lemma Gregorian_dec28:
  "Gregorian_toFixed (y - 1) 12 28 = Gregorian_toFixed y 1 1 - 4"
proof -
  define n where "n = y - 1"
  have m: "n mod 400 = 0 \<Longrightarrow> n mod 100 = 0" "n mod 100 = 0 \<Longrightarrow> n mod 4 = 0"
    by presburger+
  have e: "y - 1 = n" "n - 1 - 1 = n - 2" "y - 1 - 1 = n - 1" unfolding n_def by simp_all
  have l: "Gregorian_toFixed n 12 28
      = 365 * (n - 1) + (n - 1) div 4 - (n - 1) div 100 + (n - 1) div 400 + 336
          + (if Gregorian_isLeapYear n then - 1 else - 2) + 28"
    by (simp add: Gregorian_toFixed_def)
  show ?thesis
    unfolding Gregorian_new_year e l Gregorian_isLeapYear_def mod_js_eq
    using m by (auto simp add: div_pred)
qed

lemma Gregorian_digits:
  fixes a b c e :: int
  assumes "0 \<le> b" "b \<le> 3" "0 \<le> c" "c \<le> 24" "0 \<le> e" "e \<le> 3"
  shows "Gregorian_toFixed (400 * a + 100 * b + 4 * c + e + 1) 1 1
           = 146097 * a + 36524 * b + 1461 * c + 365 * e + 1"
proof -
  define Y where "Y = 400 * a + 100 * b + 4 * c + e"
  have "Y = e + 4 * (100 * a + 25 * b + c)" unfolding Y_def by simp
  then have "Y div 4 = (100 * a + 25 * b + c) + e div 4" by (simp only: div_mult_self2)
  then have 4: "Y div 4 = 100 * a + 25 * b + c" using assms by simp
  have "Y = (4 * c + e) + 100 * (4 * a + b)" unfolding Y_def by simp
  then have "Y div 100 = (4 * a + b) + (4 * c + e) div 100" by (simp only: div_mult_self2)
  then have 100: "Y div 100 = 4 * a + b" using assms by simp
  have "Y = (100 * b + 4 * c + e) + 400 * a" unfolding Y_def by simp
  then have "Y div 400 = a + (100 * b + 4 * c + e) div 400" by (simp only: div_mult_self2)
  then have 400: "Y div 400 = a" using assms by simp
  have "Y + 1 - 1 = Y" by simp
  then show ?thesis
    unfolding Y_def [symmetric] Gregorian_new_year by (simp add: 4 100 400) (simp add: Y_def)
qed

lemma Gregorian_year_start: "Gregorian_toFixed (Gregorian_yearFromFixed d) 1 1 \<le> d"
proof -
  define d0 where "d0 = d - 1"
  define n400 where "n400 = d0 div 146097"
  define d1 where "d1 = mod_js d0 146097"
  define n100 where "n100 = d1 div 36524"
  define d2 where "d2 = mod_js d1 36524"
  define n4 where "n4 = d2 div 1461"
  define d3 where "d3 = mod_js d2 1461"
  define n1 where "n1 = d3 div 365"
  define Y0 where "Y0 = 400 * n400 + 100 * n100 + 4 * n4 + n1"
  have yr: "Gregorian_yearFromFixed d = (if n100 = 4 \<or> n1 = 4 then Y0 else Y0 + 1)"
    unfolding Gregorian_yearFromFixed_def Let_def Y0_def n1_def d3_def n4_def d2_def n100_def
      d1_def n400_def d0_def by (rule refl)
  have b1: "0 \<le> d1" "d1 < 146097" and e0: "d0 = 146097 * n400 + d1"
    unfolding d1_def mod_js_eq n400_def by simp_all
  have b2: "0 \<le> d2" "d2 < 36524" and e1: "d1 = 36524 * n100 + d2"
    unfolding d2_def mod_js_eq n100_def by simp_all
  have b3: "0 \<le> d3" "d3 < 1461" and e2: "d2 = 1461 * n4 + d3"
    unfolding d3_def mod_js_eq n4_def by simp_all
  have e3: "365 * n1 \<le> d3" "d3 < 365 * n1 + 365"
    unfolding n1_def by linarith+
  have r100: "0 \<le> n100" "n100 \<le> 4" using b1 b2 e1 by linarith+
  have r4: "0 \<le> n4" "n4 \<le> 24" using b2 b3 e2 by linarith+
  have r1: "0 \<le> n1" "n1 \<le> 4" using b3 e3 by linarith+
  have d: "d = d0 + 1" unfolding d0_def by simp
  show ?thesis
  proof (cases "n100 = 4")
    case True
    then have "d2 = 0" using b1 b2 e1 by linarith
    then have z: "n4 = 0" "n1 = 0" using b3 e2 e3 r4 r1 by linarith+
    have "Gregorian_yearFromFixed d = 400 * n400 + 100 * 3 + 4 * 24 + 3 + 1"
      unfolding yr Y0_def using True z by simp
    then have "Gregorian_toFixed (Gregorian_yearFromFixed d) 1 1
        = 146097 * n400 + 36524 * 3 + 1461 * 24 + 365 * 3 + 1"
      by (simp only: Gregorian_digits)
    then show ?thesis unfolding d e0 e1 True using b2 by simp
  next
    case False
    then have n3: "n100 \<le> 3" using r100 by simp
    show ?thesis
    proof (cases "n1 = 4")
      case True
      have "Gregorian_yearFromFixed d = 400 * n400 + 100 * n100 + 4 * n4 + 3 + 1"
        unfolding yr Y0_def using True by simp
      then have "Gregorian_toFixed (Gregorian_yearFromFixed d) 1 1
          = 146097 * n400 + 36524 * n100 + 1461 * n4 + 365 * 3 + 1"
        using r100(1) n3 r4 by (simp only: Gregorian_digits)
      then show ?thesis unfolding d e0 e1 e2 using e3 True by simp
    next
      case n14: False
      then have n13: "n1 \<le> 3" using r1 by simp
      have "Gregorian_yearFromFixed d = 400 * n400 + 100 * n100 + 4 * n4 + n1 + 1"
        unfolding yr Y0_def using False n14 by simp
      then have "Gregorian_toFixed (Gregorian_yearFromFixed d) 1 1
          = 146097 * n400 + 36524 * n100 + 1461 * n4 + 365 * n1 + 1"
        using r100(1) n3 r4 r1(1) n13 by (simp only: Gregorian_digits)
      then show ?thesis unfolding d e0 e1 e2 using e3 by simp
    qed
  qed
qed


lemma weekdayOnOrBefore_Sunday: "weekdayOnOrBefore_int x Sunday = 7 * (x div 7)"
proof -
  have "x - x mod 7 = 7 * (x div 7)" by (simp add: minus_mod_eq_mult_div)
  then show ?thesis by (simp add: weekdayOnOrBefore_int_def mod_js_eq)
qed

lemma ISO_toFixed_week:
  assumes "0 < week"
  shows "ISO_toFixed year week day = ISO_toFixed year 1 1 + 7 * (week - 1) + day - 1"
  using assms by (simp add: ISO_toFixed_def nthWeekday_def)

lemma ISO_start_Monday: "\<exists>k. ISO_toFixed year 1 1 = 7 * k + 1"
proof -
  have "ISO_toFixed year 1 1
      = 7 * (1 + (Gregorian_toFixed (year - 1) 12 28 - 1) div 7) + 1"
    by (simp add: ISO_toFixed_def nthWeekday_def weekdayOnOrBefore_Sunday)
  then show ?thesis by blast
qed

lemma ISO_start_upper: "ISO_toFixed year 1 1 \<le> Gregorian_toFixed year 1 1 + 3"
proof -
  define x where "x = Gregorian_toFixed (year - 1) 12 28 - 1"
  have "7 * (x div 7) \<le> x" by linarith
  moreover have "ISO_toFixed year 1 1 = 7 + 7 * (x div 7) + 1"
    unfolding x_def by (simp add: ISO_toFixed_def nthWeekday_def weekdayOnOrBefore_Sunday)
  ultimately show ?thesis unfolding x_def Gregorian_dec28 by linarith
qed

lemma ISO_round_trip: "toFixed_of ISO_toFixed (ISO_fromFixed d) = d"
proof -
  define approx where "approx = Gregorian_yearFromFixed (d - 3)"
  define year where "year = (if d \<ge> ISO_toFixed (approx + 1) 1 1 then approx + 1 else approx)"
  define S where "S = ISO_toFixed year 1 1"
  define week where "week = (d - S) div 7 + 1"
  define day where "day = amod_js d 7"
  have f: "ISO_fromFixed d = (year, week, day, 0, 0, 0)"
    unfolding ISO_fromFixed_def Let_def toArray_int_def day_def week_def S_def year_def approx_def
    by (rule refl)
  have le: "S \<le> d"
  proof (cases "d \<ge> ISO_toFixed (approx + 1) 1 1")
    case True
    then show ?thesis unfolding S_def year_def by simp
  next
    case False
    have "Gregorian_toFixed approx 1 1 \<le> d - 3"
      unfolding approx_def by (rule Gregorian_year_start)
    then have "ISO_toFixed approx 1 1 \<le> d" using ISO_start_upper [of approx] by linarith
    then show ?thesis unfolding S_def year_def using False by simp
  qed
  then have "0 \<le> (d - S) div 7" by linarith
  then have w: "0 < week" unfolding week_def by simp
  obtain k where k: "S = 7 * k + 1" unfolding S_def using ISO_start_Monday by blast
  have "7 + d mod (- 7) - 1 = (d - 1) mod 7" by presburger
  also have "d - 1 = (d - S) + 7 * k" unfolding k by simp
  also have "((d - S) + 7 * k) mod 7 = (d - S) mod 7" by (simp only: mod_mult_self2)
  finally have dy: "day - 1 = (d - S) mod 7"
    unfolding day_def amod_js_def mod_js_eq by simp
  have "ISO_toFixed year week day = S + 7 * (week - 1) + (day - 1)"
    unfolding S_def using ISO_toFixed_week [OF w, of year day] by simp
  also have "\<dots> = S + (7 * ((d - S) div 7) + (d - S) mod 7)"
    unfolding dy week_def by simp
  also have "\<dots> = d" by (simp only: mult_div_mod_eq)
  finally show ?thesis unfolding f by simp
qed

text \<open>The Roman calendar: the Julian month found is one of the twelve.\<close>

lemma Julian_year_start:
  fixes n :: int
  defines "a \<equiv> (4 * n + 1464) div 1461 - 1"
  shows "365 * a + a div 4 \<le> n"
    and "n \<le> 365 * a + a div 4 + (if a mod 4 = 3 then 365 else 364)"
proof -
  define q where "q = a div 4"
  define r where "r = a mod 4"
  have a: "a = 4 * q + r" and r: "0 \<le> r" "r < 4" unfolding q_def r_def by simp_all
  have "a = (4 * n + 3) div 1461" unfolding a_def by linarith
  then have b: "1461 * a \<le> 4 * n + 3" "4 * n + 3 < 1461 * a + 1461" by linarith+
  show "365 * a + a div 4 \<le> n"
    unfolding q_def [symmetric] using b a r by linarith
  show "n \<le> 365 * a + a div 4 + (if a mod 4 = 3 then 365 else 364)"
  proof (cases "r = 3")
    case True
    then show ?thesis unfolding q_def [symmetric] r_def [symmetric] using b a by simp
  next
    case False
    then have "r \<le> 2" using r by simp
    then show ?thesis unfolding q_def [symmetric] r_def [symmetric] using b a False by simp
  qed
qed

lemma Julian_month_range:
  assumes "Julian_fromFixed date = (year, month, day, rest)"
  shows "1 \<le> month \<and> month \<le> 12"
proof -
  define approx where "approx = (4 * (date - Julian_EPOCH) + 1464) div 1461"
  define yr where "yr = (if approx > 0 then approx else approx - 1)"
  define prior where "prior = date - Julian_toFixed yr 1 1"
  define corr where "corr = (if date < Julian_toFixed yr 3 1 then 0
         else if Julian_isLeapYear yr then 1 else (2::int))"
  define mo where "mo = (12 * (prior + corr) + 373) div 367"
  define a where "a = approx - 1"
  have "Julian_fromFixed date = (yr, mo, date - Julian_toFixed yr mo 1 + 1, 0, 0, 0)"
    unfolding Julian_fromFixed_def Let_def toArray_int_def approx_def yr_def prior_def corr_def
      mo_def by (rule refl)
  with assms have m: "month = mo" by simp
  have s: "Julian_toFixed yr 1 1 = Julian_EPOCH + 365 * a + a div 4"
  proof (cases "approx > 0")
    case True
    then have "yr = a + 1" "\<not> yr < 0" unfolding yr_def a_def by simp_all
    then show ?thesis by (simp add: Julian_toFixed_def Let_def)
  next
    case False
    then have "yr = a" "yr < 0" unfolding yr_def a_def by simp_all
    then show ?thesis by (simp add: Julian_toFixed_def Let_def)
  qed
  have leap: "Julian_isLeapYear yr = (a mod 4 = 3)"
  proof (cases "approx > 0")
    case True
    then have y: "yr = a + 1" "yr > 0" unfolding yr_def a_def by simp_all
    have "((a + 1) mod 4 = 0) = (a mod 4 = 3)" by presburger
    then show ?thesis using y by (simp add: Julian_isLeapYear_def mod_js_eq)
  next
    case False
    then have "yr = a" "\<not> yr > 0" unfolding yr_def a_def by simp_all
    then show ?thesis by (simp add: Julian_isLeapYear_def mod_js_eq)
  qed
  have a': "a = (4 * (date - Julian_EPOCH) + 1464) div 1461 - 1"
    unfolding a_def approx_def by simp
  have p0: "0 \<le> prior"
    unfolding prior_def s a' using Julian_year_start(1) [of "date - Julian_EPOCH"] by simp
  have p1: "prior \<le> (if a mod 4 = 3 then 365 else 364)"
    unfolding prior_def s a' using Julian_year_start(2) [of "date - Julian_EPOCH"]
    by (simp split: if_splits)
  have c: "0 \<le> corr" "prior + corr \<le> 366"
    using p1 unfolding corr_def leap by (simp_all split: if_splits)
  have t: "0 \<le> prior + corr" using p0 c by simp
  have "0 \<le> x \<Longrightarrow> 1 \<le> (12 * x + 373) div 367" for x :: int by linarith
  from this [OF t] have "1 \<le> (12 * (prior + corr) + 373) div 367" .
  moreover have "x \<le> 366 \<Longrightarrow> (12 * x + 373) div 367 \<le> 12" for x :: int by linarith
  from this [OF c(2)] have "(12 * (prior + corr) + 373) div 367 \<le> 12" .
  ultimately show ?thesis unfolding m mo_def by simp
qed


lemma Julian_toFixed_affine:
  "Julian_toFixed year month day = Julian_toFixed year month 1 + day - 1"
  by (simp add: Julian_toFixed_def Let_def)

lemma Julian_leap_march:
  "Julian_isLeapYear year \<Longrightarrow> Julian_toFixed year 3 1 = Julian_toFixed year 2 1 + 29"
  by (simp add: Julian_toFixed_def Let_def)

lemma Julian_fromFixed_parts:
  obtains year month day where
    "Julian_fromFixed date = (year, month, day, 0, 0, 0)"
    "Julian_toFixed year month 1 + day - 1 = date"
proof -
  define approx where "approx = (4 * (date - Julian_EPOCH) + 1464) div 1461"
  define year where "year = (if approx > 0 then approx else approx - 1)"
  define priorDays where "priorDays = date - Julian_toFixed year 1 1"
  define corr where "corr = (if date < Julian_toFixed year 3 1 then 0
         else if Julian_isLeapYear year then 1 else (2::int))"
  define month where "month = (12 * (priorDays + corr) + 373) div 367"
  define day where "day = date - Julian_toFixed year month 1 + 1"
  have "Julian_fromFixed date = (year, month, day, 0, 0, 0)"
    unfolding Julian_fromFixed_def Let_def toArray_int_def approx_def year_def priorDays_def
      corr_def month_def day_def by (rule refl)
  moreover have "Julian_toFixed year month 1 + day - 1 = date"
    unfolding day_def by simp
  ultimately show ?thesis by (rule that)
qed

lemma Roman_toFixed_Kalends1: "Roman_toFixed y m Kalends 1 False = Julian_toFixed y m 1"
  by (simp add: Roman_toFixed_def)

lemma Roman_round_trip: "Roman_toFixed_of (Roman_fromFixed d) = d"
proof -
  obtain year month day where j: "Julian_fromFixed d = (year, month, day, 0, 0, 0)"
    and jd: "Julian_toFixed year month 1 + day - 1 = d"
    by (rule Julian_fromFixed_parts)
  have mr: "1 \<le> month" "month \<le> 12" using Julian_month_range [OF j] by simp_all
  consider (kal) "day = 1"
    | (non) "day \<noteq> 1" "day \<le> nones month"
    | (ide) "day \<noteq> 1" "\<not> day \<le> nones month" "day \<le> ides month"
    | (nxt) "day \<noteq> 1" "\<not> day \<le> nones month" "\<not> day \<le> ides month"
        "month \<noteq> 2 \<or> \<not> Julian_isLeapYear year"
    | (feb) "day \<noteq> 1" "\<not> day \<le> nones month" "\<not> day \<le> ides month"
        "month = 2" "Julian_isLeapYear year"
    by blast
  then show ?thesis
  proof cases
    case kal
    have "Roman_fromFixed d = (year, month, Kalends, 1, False)"
      unfolding Roman_fromFixed_def j using kal by simp
    then show ?thesis using jd kal by (simp add: Roman_toFixed_Kalends1)
  next
    case non
    have "Roman_fromFixed d = (year, month, Nones, nones month - day + 1, False)"
      unfolding Roman_fromFixed_def j using non by simp
    moreover have "Roman_toFixed year month Nones (nones month - day + 1) False
        = Julian_toFixed year month (nones month) - (nones month - day + 1) + 1"
      by (simp add: Roman_toFixed_def)
    ultimately show ?thesis
      using jd Julian_toFixed_affine [of year month "nones month"] by simp
  next
    case ide
    have "Roman_fromFixed d = (year, month, Ides, ides month - day + 1, False)"
      unfolding Roman_fromFixed_def j using ide by simp
    moreover have "Roman_toFixed year month Ides (ides month - day + 1) False
        = Julian_toFixed year month (ides month) - (ides month - day + 1) + 1"
      by (simp add: Roman_toFixed_def)
    ultimately show ?thesis
      using jd Julian_toFixed_affine [of year month "ides month"] by simp
  next
    case nxt
    define month2 where "month2 = amod_js (month + 1) 12"
    define year2 where "year2 = (if month2 \<noteq> 1 then year
                        else if month2 = 1 \<and> year \<noteq> - 1 then year + 1 else 1)"
    define count where "count = Julian_toFixed year2 month2 1 - d + 1"
    have r: "Roman_fromFixed d = (year2, month2, Kalends, count, False)"
      unfolding Roman_fromFixed_def j count_def year2_def month2_def
      using nxt by (simp add: Let_def Roman_toFixed_Kalends1)
    have "month = 2" if "month2 = 3"
    proof -
      have "12 + (month + 1) mod (- 12) = 3"
        using that by (simp add: month2_def amod_js_def mod_js_eq)
      then show ?thesis using mr by presburger
    qed
    moreover have "year2 = year" if "month2 = 3"
      using that unfolding year2_def by simp
    ultimately have f: "\<not> (Julian_isLeapYear year2 \<and> month2 = 3)"
      using nxt(4) by auto
    have "Roman_toFixed year2 month2 Kalends count False
        = Julian_toFixed year2 month2 1 - count + 1"
      using f by (auto simp add: Roman_toFixed_def)
    then show ?thesis unfolding r by (simp add: count_def)
  next
    case feb
    have i: "ides month = 13" using feb(4) by (simp add: ides_def)
    have g: "13 < day" using feb(3) i by simp
    note m = Julian_leap_march [OF feb(5)]
    have jd2: "Julian_toFixed year 2 1 + day - 1 = d" using jd feb(4) by simp
    show ?thesis
    proof (cases "day < 25")
      case True
      have "Roman_fromFixed d = (year, 3, Kalends, 30 - day, False)"
        unfolding Roman_fromFixed_def j using feb True by simp
      moreover have "Roman_toFixed year 3 Kalends (30 - day) False
          = Julian_toFixed year 3 1 - (30 - day)"
        using feb(5) g True by (simp add: Roman_toFixed_def)
      ultimately show ?thesis using jd2 m by simp
    next
      case False
      have "Roman_fromFixed d = (year, 3, Kalends, 31 - day, day = 25)"
        unfolding Roman_fromFixed_def j using feb False by simp
      moreover have "Roman_toFixed year 3 Kalends (31 - day) (day = 25)
          = Julian_toFixed year 3 1 - (31 - day) + 1"
        using feb(5) False by (cases "day = 25") (simp_all add: Roman_toFixed_def)
      ultimately show ?thesis using jd2 m by simp
    qed
  qed
qed

text \<open>
  The Gregorian year of a date: the new years are strictly increasing, and the date is
  before the new year after its year.
\<close>

lemma Gregorian_year_length:
  "Gregorian_toFixed y 1 1 < Gregorian_toFixed (y + 1) 1 1"
proof -
  define a4 where "a4 = (y - 1) div 4"
  define b4 where "b4 = y div 4"
  define a100 where "a100 = (y - 1) div 100"
  define b100 where "b100 = y div 100"
  define a400 where "a400 = (y - 1) div 400"
  define b400 where "b400 = y div 400"
  have e: "y + 1 - 1 = y" by simp
  have 4: "a4 \<le> b4" unfolding a4_def b4_def by (rule zdiv_mono1) simp_all
  have 400: "a400 \<le> b400" unfolding a400_def b400_def by (rule zdiv_mono1) simp_all
  have 100: "b100 \<le> a100 + 1" unfolding a100_def b100_def by (simp add: div_pred)
  have "365 * (y - 1) + a4 - a100 + a400 + 1 < 365 * y + b4 - b100 + b400 + 1"
    using 4 100 400 by simp
  then show ?thesis
    unfolding Gregorian_new_year e a4_def b4_def a100_def b100_def a400_def b400_def .
qed

lemma Gregorian_new_year_mono:
  assumes "a \<le> b"
  shows "Gregorian_toFixed a 1 1 \<le> Gregorian_toFixed b 1 1"
  using assms
proof (induction b rule: int_ge_induct)
  case base
  show ?case by simp
next
  case (step i)
  then show ?case using Gregorian_year_length [of i] by simp
qed

lemma Gregorian_year_end: "d < Gregorian_toFixed (Gregorian_yearFromFixed d + 1) 1 1"
proof -
  define d0 where "d0 = d - 1"
  define n400 where "n400 = d0 div 146097"
  define d1 where "d1 = mod_js d0 146097"
  define n100 where "n100 = d1 div 36524"
  define d2 where "d2 = mod_js d1 36524"
  define n4 where "n4 = d2 div 1461"
  define d3 where "d3 = mod_js d2 1461"
  define n1 where "n1 = d3 div 365"
  define Y0 where "Y0 = 400 * n400 + 100 * n100 + 4 * n4 + n1"
  have yr: "Gregorian_yearFromFixed d = (if n100 = 4 \<or> n1 = 4 then Y0 else Y0 + 1)"
    unfolding Gregorian_yearFromFixed_def Let_def Y0_def n1_def d3_def n4_def d2_def n100_def
      d1_def n400_def d0_def by (rule refl)
  have b1: "0 \<le> d1" "d1 < 146097" and e0: "d0 = 146097 * n400 + d1"
    unfolding d1_def mod_js_eq n400_def by simp_all
  have b2: "0 \<le> d2" "d2 < 36524" and e1: "d1 = 36524 * n100 + d2"
    unfolding d2_def mod_js_eq n100_def by simp_all
  have b3: "0 \<le> d3" "d3 < 1461" and e2: "d2 = 1461 * n4 + d3"
    unfolding d3_def mod_js_eq n4_def by simp_all
  have e3: "365 * n1 \<le> d3" "d3 < 365 * n1 + 365"
    unfolding n1_def by linarith+
  have r100: "0 \<le> n100" "n100 \<le> 4" using b1 b2 e1 by linarith+
  have r4: "0 \<le> n4" "n4 \<le> 24" using b2 b3 e2 by linarith+
  have r1: "0 \<le> n1" "n1 \<le> 4" using b3 e3 by linarith+
  have d: "d = d0 + 1" unfolding d0_def by simp
  have G: "Gregorian_toFixed (400 * a + 100 * b + 4 * c + e + 1) 1 1
      = 146097 * a + 36524 * b + 1461 * c + 365 * e + 1"
    if "0 \<le> b" "b \<le> 3" "0 \<le> c" "c \<le> 24" "0 \<le> e" "e \<le> 3" for a b c e
    using that by (rule Gregorian_digits)
  consider (c400) "n100 = 4"
    | (c4) "n100 \<le> 3" "n1 = 4"
    | (c1) "n100 \<le> 3" "n1 \<le> 2"
    | (c13) "n100 \<le> 3" "n1 = 3" "n4 \<le> 23"
    | (c124) "n100 \<le> 2" "n1 = 3" "n4 = 24"
    | (c1243) "n100 = 3" "n1 = 3" "n4 = 24"
    using r100 r4 r1 by linarith
  then show ?thesis
  proof cases
    case c400
    then have "d2 = 0" using b1 b2 e1 by linarith
    then have z: "n4 = 0" "n1 = 0" using b3 e2 e3 r4 r1 by linarith+
    have "Gregorian_yearFromFixed d + 1 = 400 * (n400 + 1) + 100 * 0 + 4 * 0 + 0 + 1"
      unfolding yr Y0_def using c400 z by simp
    then have "Gregorian_toFixed (Gregorian_yearFromFixed d + 1) 1 1
        = 146097 * (n400 + 1) + 36524 * 0 + 1461 * 0 + 365 * 0 + 1"
      by (simp only: G)
    then show ?thesis unfolding d e0 e1 c400 using b2 \<open>d2 = 0\<close> by simp
  next
    case c4
    have n4: "n4 \<le> 23" using b2 b3 e2 e3 c4 r4 by linarith
    have "Gregorian_yearFromFixed d + 1 = 400 * n400 + 100 * n100 + 4 * (n4 + 1) + 0 + 1"
      unfolding yr Y0_def using c4 by simp
    then have "Gregorian_toFixed (Gregorian_yearFromFixed d + 1) 1 1
        = 146097 * n400 + 36524 * n100 + 1461 * (n4 + 1) + 365 * 0 + 1"
      using r100(1) c4(1) r4(1) n4 by (simp only: G)
    then show ?thesis unfolding d e0 e1 e2 using b3 by simp
  next
    case c1
    have "Gregorian_yearFromFixed d + 1 = 400 * n400 + 100 * n100 + 4 * n4 + (n1 + 1) + 1"
      unfolding yr Y0_def using c1 by simp
    then have "Gregorian_toFixed (Gregorian_yearFromFixed d + 1) 1 1
        = 146097 * n400 + 36524 * n100 + 1461 * n4 + 365 * (n1 + 1) + 1"
      using r100(1) c1 r4 r1(1) by (simp only: G)
    then show ?thesis unfolding d e0 e1 e2 using e3 by simp
  next
    case c13
    have "Gregorian_yearFromFixed d + 1 = 400 * n400 + 100 * n100 + 4 * (n4 + 1) + 0 + 1"
      unfolding yr Y0_def using c13 by simp
    then have "Gregorian_toFixed (Gregorian_yearFromFixed d + 1) 1 1
        = 146097 * n400 + 36524 * n100 + 1461 * (n4 + 1) + 365 * 0 + 1"
      using r100(1) c13 r4(1) by (simp only: G)
    then show ?thesis unfolding d e0 e1 e2 using b3 by simp
  next
    case c124
    have "Gregorian_yearFromFixed d + 1 = 400 * n400 + 100 * (n100 + 1) + 4 * 0 + 0 + 1"
      unfolding yr Y0_def using c124 by simp
    then have "Gregorian_toFixed (Gregorian_yearFromFixed d + 1) 1 1
        = 146097 * n400 + 36524 * (n100 + 1) + 1461 * 0 + 365 * 0 + 1"
      using r100(1) c124 by (simp only: G)
    then show ?thesis unfolding d e0 e1 using b2 by simp
  next
    case c1243
    have "Gregorian_yearFromFixed d + 1 = 400 * (n400 + 1) + 100 * 0 + 4 * 0 + 0 + 1"
      unfolding yr Y0_def using c1243 by simp
    then have "Gregorian_toFixed (Gregorian_yearFromFixed d + 1) 1 1
        = 146097 * (n400 + 1) + 36524 * 0 + 1461 * 0 + 365 * 0 + 1"
      by (simp only: G)
    then show ?thesis unfolding d e0 using b1 by simp
  qed
qed


lemma Gregorian_year_unique:
  assumes "Gregorian_toFixed a 1 1 \<le> x" "x < Gregorian_toFixed (b + 1) 1 1"
  shows "a \<le> b"
proof (rule ccontr)
  assume "\<not> a \<le> b"
  then have "b + 1 \<le> a" by simp
  then have "Gregorian_toFixed (b + 1) 1 1 \<le> Gregorian_toFixed a 1 1"
    by (rule Gregorian_new_year_mono)
  then show False using assms by linarith
qed

text \<open>
  The French calendar reads the year's first day from the equinox that the library
  gives, once from the date and once from the middle of the year found: the round trip
  holds when both give the same new year.
\<close>

lemma French_round_trip:
  assumes "French_toFixed eph (fst (French_fromFixed eph d)) 1 1 = French_newYearOnOrBefore eph d"
  shows "toFixed_of (French_toFixed eph) (French_fromFixed eph d) = d"
proof -
  define ny where "ny = French_newYearOnOrBefore eph d"
  define year where
    "year = js_round (of_int (ny - French_EPOCH) / MEAN_TROPICAL_YEAR) + 1"
  define month where "month = (d - ny) div 30 + 1"
  define day where "day = mod_js (d - ny) 30 + 1"
  define est where
    "est = \<lfloor>of_int French_EPOCH + 180 + MEAN_TROPICAL_YEAR * of_int (year - 1)\<rfloor>"
  have f: "French_fromFixed eph d = (year, month, day, 0, 0, 0)"
    unfolding French_fromFixed_def Let_def toArray_int_def day_def month_def year_def ny_def
    by (rule refl)
  have t: "French_toFixed eph year m x = French_newYearOnOrBefore eph est - 1 + 30 * (m - 1) + x"
    for m x
    unfolding French_toFixed_def Let_def est_def by (rule refl)
  have "French_toFixed eph year 1 1 = ny"
    using assms unfolding f ny_def by simp
  then have "French_newYearOnOrBefore eph est = ny"
    unfolding t by simp
  then have "French_toFixed eph year month day = ny + (30 * ((d - ny) div 30) + (d - ny) mod 30)"
    unfolding t month_def day_def mod_js_eq by simp
  also have "\<dots> = d" by (simp only: mult_div_mod_eq)
  finally show ?thesis unfolding f by simp
qed

lemma French_round_trip_iff:
  "(toFixed_of (French_toFixed eph) (French_fromFixed eph d) = d)
     = (French_toFixed eph (fst (French_fromFixed eph d)) 1 1 = French_newYearOnOrBefore eph d)"
proof
  assume rt: "toFixed_of (French_toFixed eph) (French_fromFixed eph d) = d"
  define ny where "ny = French_newYearOnOrBefore eph d"
  define year where
    "year = js_round (of_int (ny - French_EPOCH) / MEAN_TROPICAL_YEAR) + 1"
  define est where
    "est = \<lfloor>of_int French_EPOCH + 180 + MEAN_TROPICAL_YEAR * of_int (year - 1)\<rfloor>"
  have f: "French_fromFixed eph d = (year, (d - ny) div 30 + 1, mod_js (d - ny) 30 + 1, 0, 0, 0)"
    unfolding French_fromFixed_def Let_def toArray_int_def year_def ny_def by (rule refl)
  have t: "French_toFixed eph year m x = French_newYearOnOrBefore eph est - 1 + 30 * (m - 1) + x"
    for m x
    unfolding French_toFixed_def Let_def est_def by (rule refl)
  have "French_newYearOnOrBefore eph est + (30 * ((d - ny) div 30) + (d - ny) mod 30) = d"
    using rt unfolding f toFixed_of.simps t mod_js_eq by simp
  then have "French_newYearOnOrBefore eph est + (d - ny) = d"
    by (simp only: mult_div_mod_eq)
  then show "French_toFixed eph (fst (French_fromFixed eph d)) 1 1 = French_newYearOnOrBefore eph d"
    unfolding f fst_conv t ny_def by simp
next
  assume "French_toFixed eph (fst (French_fromFixed eph d)) 1 1 = French_newYearOnOrBefore eph d"
  then show "toFixed_of (French_toFixed eph) (French_fromFixed eph d) = d"
    by (rule French_round_trip)
qed

text \<open>
  Where the ephemeris is regular, the equinox on or before a day between the equinoxes
  of \<open>Y\<close> and \<open>Y + 1\<close> is that of \<open>Y\<close>, whichever of the two Gregorian years the day
  is in.
\<close>

lemma autumnalEquinoxOnOrBefore_regular:
  assumes rY: "equinox_regular eph Y" and rY1: "equinox_regular eph (Y + 1)"
    and lo: "JD_toFixed (solstice_september eph Y) \<le> of_int x"
    and hi: "of_int x < JD_toFixed (solstice_september eph (Y + 1))"
  shows "autumnalEquinoxOnOrBefore eph x = JD_toFixed (solstice_september eph Y)"
proof -
  define Z where "Z = Gregorian_yearFromFixed x"
  define S where "S = (\<lambda>y. JD_toFixed (solstice_september eph y))"
  have a: "autumnalEquinoxOnOrBefore eph x = (if S Z > of_int x then S (Z - 1) else S Z)"
    unfolding autumnalEquinoxOnOrBefore_def Let_def Z_def S_def by (rule refl)
  have gz: "Gregorian_toFixed Z 1 1 \<le> x" unfolding Z_def by (rule Gregorian_year_start)
  have gz1: "x < Gregorian_toFixed (Z + 1) 1 1" unfolding Z_def by (rule Gregorian_year_end)
  have "real_of_int (Gregorian_toFixed Y 1 1) \<le> of_int x"
    using rY lo unfolding equinox_regular_def Let_def by linarith
  then have "Gregorian_toFixed Y 1 1 \<le> x" by simp
  then have 1: "Y \<le> Z" using gz1 by (rule Gregorian_year_unique)
  have "real_of_int x < of_int (Gregorian_toFixed (Y + 1 + 1) 1 1)"
    using rY1 hi unfolding equinox_regular_def Let_def by linarith
  then have "x < Gregorian_toFixed (Y + 1 + 1) 1 1" by simp
  with gz have 2: "Z \<le> Y + 1" by (rule Gregorian_year_unique)
  from 1 2 consider "Z = Y" | "Z = Y + 1" by linarith
  then show ?thesis
  proof cases
    case 1
    then show ?thesis unfolding a using lo unfolding S_def by simp
  next
    case 2
    then show ?thesis unfolding a using hi unfolding S_def by simp
  qed
qed

lemma French_newYear_bounds:
  "\<lfloor>autumnalEquinoxOnOrBefore eph (date + 1)\<rfloor> \<le> French_newYearOnOrBefore eph date
     \<and> French_newYearOnOrBefore eph date \<le> \<lfloor>autumnalEquinoxOnOrBefore eph (date + 1)\<rfloor> + 1"
  by (simp add: French_newYearOnOrBefore_def Let_def)

lemma French_newYear_cong:
  assumes "autumnalEquinoxOnOrBefore eph (a + 1) = autumnalEquinoxOnOrBefore eph (b + 1)"
  shows "French_newYearOnOrBefore eph a = French_newYearOnOrBefore eph b"
  unfolding French_newYearOnOrBefore_def Let_def assms ..

lemma French_round_trip_regular:
  assumes r0: "equinox_regular eph (Gregorian_yearFromFixed (d + 1) - 1)"
    and r1: "equinox_regular eph (Gregorian_yearFromFixed (d + 1))"
    and r2: "equinox_regular eph (Gregorian_yearFromFixed (d + 1) + 1)"
  shows "toFixed_of (French_toFixed eph) (French_fromFixed eph d) = d"
proof -
  define Z where "Z = Gregorian_yearFromFixed (d + 1)"
  define S where "S = (\<lambda>y. JD_toFixed (solstice_september eph y))"
  define T where "T = (\<lambda>y. real_of_int French_EPOCH + MEAN_TROPICAL_YEAR * of_int (y - 1792))"
  define Y where "Y = (if S Z > of_int (d + 1) then Z - 1 else Z)"
  have reg: "of_int (Gregorian_toFixed y 1 1) \<le> S y \<and> S y < of_int (Gregorian_toFixed (y + 1) 1 1)
      \<and> \<bar>S y - T y\<bar> \<le> 30" if "equinox_regular eph y" for y
    using that unfolding equinox_regular_def Let_def S_def T_def .
  have rZ: "equinox_regular eph (Z - 1)" "equinox_regular eph Z" "equinox_regular eph (Z + 1)"
    using r0 r1 r2 unfolding Z_def .
  have rY: "equinox_regular eph Y" "equinox_regular eph (Y + 1)"
    unfolding Y_def using rZ by simp_all
  have E: "autumnalEquinoxOnOrBefore eph (d + 1) = S Y"
    unfolding autumnalEquinoxOnOrBefore_def Let_def Y_def S_def Z_def by simp
  define ny where "ny = French_newYearOnOrBefore eph d"
  have "\<lfloor>S Y\<rfloor> \<le> ny \<and> ny \<le> \<lfloor>S Y\<rfloor> + 1"
    unfolding ny_def E [symmetric] by (rule French_newYear_bounds)
  then have nyS: "S Y - 1 < of_int ny" "of_int ny \<le> S Y + 1" by linarith+
  have bY: "\<bar>S Y - T Y\<bar> \<le> 30" using reg [OF rY(1)] by simp
  have bY1: "\<bar>S (Y + 1) - T (Y + 1)\<bar> \<le> 30" using reg [OF rY(2)] by simp
  have T1: "T (Y + 1) = T Y + MEAN_TROPICAL_YEAR"
    unfolding T_def by (simp add: algebra_simps)
  define u where "u = real_of_int ny - T Y"
  have u: "- 31 \<le> u" "u \<le> 31" unfolding u_def using nyS bY by linarith+
  have "real_of_int (ny - French_EPOCH) = MEAN_TROPICAL_YEAR * of_int (Y - 1792) + u"
    unfolding u_def T_def by simp
  then have q: "real_of_int (ny - French_EPOCH) / MEAN_TROPICAL_YEAR
      = of_int (Y - 1792) + u / MEAN_TROPICAL_YEAR"
    by (simp add: MEAN_TROPICAL_YEAR_def field_simps)
  have "- (1 / 2) < u / MEAN_TROPICAL_YEAR" "u / MEAN_TROPICAL_YEAR < 1 / 2"
    using u unfolding MEAN_TROPICAL_YEAR_def by simp_all
  then have "js_round (real_of_int (ny - French_EPOCH) / MEAN_TROPICAL_YEAR) = Y - 1792"
    unfolding q js_round_def by linarith
  then have fy: "fst (French_fromFixed eph d) - 1 = Y - 1792"
    unfolding French_fromFixed_def Let_def toArray_int_def fst_conv ny_def by simp
  define est where
    "est = \<lfloor>real_of_int French_EPOCH + 180 + MEAN_TROPICAL_YEAR * of_int (Y - 1792)\<rfloor>"
  have est: "T Y + 179 < of_int est" "of_int est \<le> T Y + 180"
    unfolding est_def T_def by linarith+
  have "French_toFixed eph yy 1 1 = French_newYearOnOrBefore eph
      \<lfloor>real_of_int French_EPOCH + 180 + MEAN_TROPICAL_YEAR * of_int (yy - 1)\<rfloor>" for yy
    unfolding French_toFixed_def Let_def by simp
  from this [of "fst (French_fromFixed eph d)"]
  have t: "French_toFixed eph (fst (French_fromFixed eph d)) 1 1
      = French_newYearOnOrBefore eph est"
    unfolding fy est_def .
  have lo: "S Y \<le> of_int (est + 1)" using est bY by simp
  have "of_int (est + 1) < T (Y + 1) - 30"
    unfolding T1 using est by (simp add: MEAN_TROPICAL_YEAR_def)
  then have hi: "of_int (est + 1) < S (Y + 1)" using bY1 by linarith
  have "autumnalEquinoxOnOrBefore eph (est + 1) = S Y"
    unfolding S_def using rY lo hi unfolding S_def
    by (rule autumnalEquinoxOnOrBefore_regular)
  then have "French_newYearOnOrBefore eph est = French_newYearOnOrBefore eph d"
    unfolding E [symmetric] by (rule French_newYear_cong)
  then show ?thesis unfolding t [symmetric] by (rule French_round_trip)
qed

text \<open>
  The condition is on the library alone, and some condition is needed: with the equinox
  of 1793 only 85 days after that of 1792, the date 654420 is day 6 of month 1 of year
  1, and \<open>toFixed\<close> of these is 654505, since the middle of year 1 is after the second
  equinox.
\<close>

lemma midnightInParis_zero_eqtime:
  assumes "eqtime_e eph = (\<lambda>_. 0)"
  shows "midnightInParis eph t = of_int \<lfloor>t + 1\<rfloor> - (2 + 20 / 60 + 14 / 3600) / 360"
  by (simp add: midnightInParis_def midnight_def universalFromStandard_def standardFromLocal_def
      standardFromUniversal_def universalFromLocal_def localFromApparent_def PARIS_def assms)

lemma French_irregular_newYear:
  "French_newYearOnOrBefore irregular_ephemeris 654420 = 654415
     \<and> French_newYearOnOrBefore irregular_ephemeris 654595 = 654500"
proof -
  have y: "Gregorian_yearFromFixed (654420 + 1) = 1792"
    "Gregorian_yearFromFixed (654595 + 1) = 1793"
    by (simp_all add: Gregorian_yearFromFixed_def mod_js_def Let_def)
  have e: "eqtime_e irregular_ephemeris = (\<lambda>_. 0)"
    by (simp add: irregular_ephemeris_def example_ephemeris_def)
  have a: "autumnalEquinoxOnOrBefore irregular_ephemeris (654420 + 1) = 654415"
    "autumnalEquinoxOnOrBefore irregular_ephemeris (654595 + 1) = 654500"
    unfolding autumnalEquinoxOnOrBefore_def Let_def y
    by (simp_all add: irregular_ephemeris_def example_ephemeris_def JD_toFixed_def JD_EPOCH_def)
  show ?thesis
    unfolding French_newYearOnOrBefore_def Let_def a midnightInParis_zero_eqtime [OF e]
    by simp
qed

lemma French_round_trip_irregular:
  "French_fromFixed irregular_ephemeris 654420 = (1, 1, 6, 0, 0, 0)
     \<and> French_toFixed irregular_ephemeris 1 1 6 = 654505"
proof -
  have 1: "French_fromFixed irregular_ephemeris 654420 = (1, 1, 6, 0, 0, 0)"
    unfolding French_fromFixed_def Let_def
    by (simp add: French_irregular_newYear French_EPOCH_def js_round_def toArray_int_def
        mod_js_def)
  have "\<lfloor>real_of_int French_EPOCH + 180 + MEAN_TROPICAL_YEAR * real_of_int (1 - 1)\<rfloor> = 654595"
    by (simp add: French_EPOCH_def)
  then have 2: "French_toFixed irregular_ephemeris 1 1 6 = 654505"
    unfolding French_toFixed_def Let_def by (simp only: French_irregular_newYear) simp
  from 1 2 show ?thesis by simp
qed

text \<open>
  The leap day of the Roman calendar: 25 February of the Julian leap year 2000 is the
  second sixth day before the Kalends of March, and is found again from its five
  components.
\<close>

lemma Roman_bissextile_example:
  "Julian_toFixed 2000 2 25 = 730188
     \<and> Roman_fromFixed 730188 = (2000, 3, Kalends, 6, True)
     \<and> Roman_toFixed 2000 3 Kalends 6 True = 730188
     \<and> Roman_fromFixed 730187 = (2000, 3, Kalends, 6, False)
     \<and> Roman_toFixed 2000 3 Kalends 6 False = 730187"
  by code_simp

text \<open>
  C1. For every calendar and every whole fixed date \<open>d\<close>, \<open>toFixed\<close> applied to the
  components that \<open>fromFixed d\<close> returns is \<open>d\<close>; for the Roman calendar on all five
  components, the leap-day flag included. For the Hebrew calendar \<open>fromFixed\<close> is a total
  function: its search for the year ends. The Persian and the French calendar read the
  equinox from the library, a parameter here. The Persian round trip holds for every
  ephemeris. The French one holds in the range of dates that the ephemeris supports: the
  September equinoxes of the Gregorian years \<open>lo\<close> to \<open>hi\<close> are regular, each in its
  own Gregorian year and within 30 days of the mean equinox, and the Gregorian year of
  the day after \<open>d\<close> is strictly between \<open>lo\<close> and \<open>hi\<close>.
\<close>

theorem calendars_round_trip:
  "toFixed_of Egyptian_toFixed (Egyptian_fromFixed d) = d
     \<and> toFixed_of Armenian_toFixed (Armenian_fromFixed d) = d
     \<and> toFixed_of Gregorian_toFixed (Gregorian_fromFixed d) = d
     \<and> toFixed_of Julian_toFixed (Julian_fromFixed d) = d
     \<and> Roman_toFixed_of (Roman_fromFixed d) = d
     \<and> toFixed_of Coptic_toFixed (Coptic_fromFixed d) = d
     \<and> toFixed_of Ethiopic_toFixed (Ethiopic_fromFixed d) = d
     \<and> toFixed_of ISO_toFixed (ISO_fromFixed d) = d
     \<and> toFixed_of Islamic_toFixed (Islamic_fromFixed d) = d
     \<and> toFixed_of Hebrew_toFixed (Hebrew_fromFixed d) = d
     \<and> toFixed_of (Persian_toFixed eph) (Persian_fromFixed eph d) = d
     \<and> ((\<forall>Y\<in>{lo..hi}. equinox_regular eph Y)
           \<and> lo < Gregorian_yearFromFixed (d + 1) \<and> Gregorian_yearFromFixed (d + 1) < hi
         \<longrightarrow> toFixed_of (French_toFixed eph) (French_fromFixed eph d) = d)
     \<and> toFixed_of Modified_toFixed (Modified_fromFixed d) = d
     \<and> LongCount_toFixed_of (LongCount_fromFixed d) = d"
proof -
  have "toFixed_of (French_toFixed eph) (French_fromFixed eph d) = d"
    if r: "\<forall>Y\<in>{lo..hi}. equinox_regular eph Y"
      and l: "lo < Gregorian_yearFromFixed (d + 1)" and h: "Gregorian_yearFromFixed (d + 1) < hi"
  proof (rule French_round_trip_regular)
    show "equinox_regular eph (Gregorian_yearFromFixed (d + 1) - 1)" using r l h by simp
    show "equinox_regular eph (Gregorian_yearFromFixed (d + 1))" using r l h by simp
    show "equinox_regular eph (Gregorian_yearFromFixed (d + 1) + 1)" using r l h by simp
  qed
  then have "(\<forall>Y\<in>{lo..hi}. equinox_regular eph Y)
        \<and> lo < Gregorian_yearFromFixed (d + 1) \<and> Gregorian_yearFromFixed (d + 1) < hi
      \<longrightarrow> toFixed_of (French_toFixed eph) (French_fromFixed eph d) = d"
    by blast
  then show ?thesis
    by (simp only: Egyptian_round_trip Armenian_round_trip Gregorian_round_trip
        Julian_round_trip Roman_round_trip Coptic_round_trip Ethiopic_round_trip ISO_round_trip
        Islamic_round_trip Hebrew_round_trip Persian_round_trip Modified_round_trip
        LongCount_round_trip simp_thms)
qed

lemma equinox_ephemeris_regular: "\<forall>Y\<in>{1791..1793}. equinox_regular equinox_ephemeris Y"
proof
  fix Y :: int
  assume "Y \<in> {1791..1793}"
  then consider "Y = 1791" | "Y = 1792" | "Y = 1793" by (simp only: atLeastAtMost_iff) linarith
  then show "equinox_regular equinox_ephemeris Y"
    by cases
      (simp_all add: equinox_regular_def equinox_ephemeris_def example_ephemeris_def
        JD_toFixed_def JD_EPOCH_def Gregorian_toFixed_def Gregorian_isLeapYear_def mod_js_def
        French_EPOCH_def MEAN_TROPICAL_YEAR_def Let_def)
qed

lemma yearFromFixed_654416: "Gregorian_yearFromFixed (654415 + 1) = 1792"
  by (simp add: Gregorian_yearFromFixed_def mod_js_def Let_def)

text \<open>
  At the epoch of the French calendar, fixed date 654415, with an ephemeris that has the
  equinox of 1792 on that day and regular equinoxes in 1791, 1792 and 1793: every round
  trip returns 654415.
\<close>

theorem calendars_round_trip_witness:
  "equinox_regular equinox_ephemeris 1791 \<and> equinox_regular equinox_ephemeris 1792
     \<and> equinox_regular equinox_ephemeris 1793
     \<and> 1791 < Gregorian_yearFromFixed (654415 + 1) \<and> Gregorian_yearFromFixed (654415 + 1) < 1793
     \<and> toFixed_of Egyptian_toFixed (Egyptian_fromFixed 654415) = 654415
     \<and> toFixed_of Armenian_toFixed (Armenian_fromFixed 654415) = 654415
     \<and> toFixed_of Gregorian_toFixed (Gregorian_fromFixed 654415) = 654415
     \<and> toFixed_of Julian_toFixed (Julian_fromFixed 654415) = 654415
     \<and> Roman_toFixed_of (Roman_fromFixed 654415) = 654415
     \<and> toFixed_of Coptic_toFixed (Coptic_fromFixed 654415) = 654415
     \<and> toFixed_of Ethiopic_toFixed (Ethiopic_fromFixed 654415) = 654415
     \<and> toFixed_of ISO_toFixed (ISO_fromFixed 654415) = 654415
     \<and> toFixed_of Islamic_toFixed (Islamic_fromFixed 654415) = 654415
     \<and> toFixed_of Hebrew_toFixed (Hebrew_fromFixed 654415) = 654415
     \<and> toFixed_of (Persian_toFixed equinox_ephemeris) (Persian_fromFixed equinox_ephemeris 654415) = 654415
     \<and> toFixed_of (French_toFixed equinox_ephemeris) (French_fromFixed equinox_ephemeris 654415) = 654415
     \<and> toFixed_of Modified_toFixed (Modified_fromFixed 654415) = 654415
     \<and> LongCount_toFixed_of (LongCount_fromFixed 654415) = 654415"
proof -
  have y: "1791 < Gregorian_yearFromFixed (654415 + 1)"
    "Gregorian_yearFromFixed (654415 + 1) < 1793"
    unfolding yearFromFixed_654416 by simp_all
  have r: "equinox_regular equinox_ephemeris 1791" "equinox_regular equinox_ephemeris 1792"
    "equinox_regular equinox_ephemeris 1793"
    using equinox_ephemeris_regular by simp_all
  from calendars_round_trip [where d = 654415 and eph = equinox_ephemeris and lo = 1791
      and hi = 1793] equinox_ephemeris_regular y r
  show ?thesis by blast
qed

end
